theory Spec2Isabelle
  imports Main "HOL-Library.Multiset"
begin

section \<open>Data model\<close>

text \<open>
  The records follow \<^verbatim>\<open>src/types/Student.ts\<close>, \<^verbatim>\<open>types/Seat.ts\<close>,
  \<^verbatim>\<open>src/types/Relation.ts\<close> and \<^verbatim>\<open>src/types/Roulette.ts\<close>. A field of type
  \<^verbatim>\<open>string | null\<close> is a \<open>string option\<close>. The field \<^verbatim>\<open>id\<close> of a student is
  called \<open>student_id\<close>, the fields of a fixed assignment carry the prefix \<open>fixed_\<close>,
  the field \<^verbatim>\<open>type\<close> of a relation is \<open>rel_type\<close>, and the fields of a history
  entry carry the prefix \<open>h_\<close>.
\<close>

record Student =
  student_id :: string
  number :: string
  name :: string
  kana :: string
  info1 :: string
  info2 :: string
  info3 :: string
  isAssigned :: bool
  assignedSeatId :: "string option"

record SeatMapData =
  seatId :: string
  row :: int
  col :: int
  assignedStudentId :: "string option"
  isUsable :: bool

record FixedSeatAssignment =
  fixed_studentId :: string
  fixed_seatId :: string

datatype RelationType = CO_SEAT | NO_CO_SEAT

record RelationConfigData =
  studentId1 :: string
  studentId2 :: string
  rel_type :: RelationType

record HistoryEntry =
  h_studentId :: string
  h_seatId :: string

record RouletteState =
  isRunning :: bool
  currentSelectedSeatId :: "string option"
  currentAssigningStudent :: "Student option"
  winningHistory :: "HistoryEntry list"
  isStopped :: bool

text \<open>
  JavaScript truthiness of a \<^verbatim>\<open>string | null\<close> value: \<^verbatim>\<open>null\<close> and the empty string
  are falsy, every other string is truthy.
\<close>

definition truthy :: "string option \<Rightarrow> bool" where
  "truthy v = (case v of None \<Rightarrow> False | Some s \<Rightarrow> s \<noteq> [])"

section \<open>Grid topology: \<^verbatim>\<open>getAdjacentSeatIds\<close>\<close>

text \<open>
  The class \<^verbatim>\<open>\d\<close> of a JavaScript regular expression is the ten ASCII digits.
\<close>

definition isDigit :: "char \<Rightarrow> bool" where
  "isDigit c = (48 \<le> (of_char c :: nat) \<and> (of_char c :: nat) \<le> 57)"

definition digitVal :: "char \<Rightarrow> nat" where
  "digitVal c = (of_char c :: nat) - 48"

definition digitChar :: "nat \<Rightarrow> char" where
  "digitChar d = char_of (48 + d)"

text \<open>
  \<^verbatim>\<open>parseInt(m, 10)\<close> on a non-empty run of digits. A JavaScript number is a double:
  the model is the exact value, and agrees with the code for values below \<open>2 ^ 53\<close>.
\<close>

definition parseInt10 :: "string \<Rightarrow> nat" where
  "parseInt10 ds = foldl (\<lambda>acc c. 10 * acc + digitVal c) 0 ds"

text \<open>
  The regular expression \<^verbatim>\<open>/R(\d+)C(\d+)/\<close> tried at the start of a string: the letter R,
  the longest run of digits (one at least), the letter C, the longest run of digits
  (one at least). Both groups are greedy, and giving back a digit of the first group
  leaves a digit where C is required, so the longest runs are the only match.
\<close>

definition matchHere :: "string \<Rightarrow> (string \<times> string) option" where
  "matchHere s =
     (case s of
        [] \<Rightarrow> None
      | c # rest \<Rightarrow>
          if c \<noteq> CHR ''R'' then None
          else
            let m1 = takeWhile isDigit rest; rest1 = dropWhile isDigit rest
            in if m1 = [] then None
               else
                 (case rest1 of
                    [] \<Rightarrow> None
                  | d # rest2 \<Rightarrow>
                      if d \<noteq> CHR ''C'' then None
                      else
                        let m2 = takeWhile isDigit rest2
                        in if m2 = [] then None else Some (m1, m2)))"

text \<open>
  \<^verbatim>\<open>seatId.match(/R(\d+)C(\d+)/)\<close>: the expression is not anchored, so the match is
  searched from every position, leftmost first. The result holds the two groups.
\<close>

fun matchRC :: "string \<Rightarrow> (string \<times> string) option" where
  "matchRC [] = matchHere []"
| "matchRC (c # cs) =
     (case matchHere (c # cs) of Some g \<Rightarrow> Some g | None \<Rightarrow> matchRC cs)"

text \<open>
  A number inside a template literal: the decimal digits of an integer, with a minus
  sign for a negative one.
\<close>

function showNat :: "nat \<Rightarrow> string" where
  "showNat n = (if n < 10 then [digitChar n] else showNat (n div 10) @ [digitChar (n mod 10)])"
  by pat_completeness auto
termination
  by (relation "measure (\<lambda>n. n)") auto

declare showNat.simps [simp del]

definition showInt :: "int \<Rightarrow> string" where
  "showInt i = (if i < 0 then CHR ''-'' # showNat (nat (- i)) else showNat (nat i))"

text \<open>The template \<^verbatim>\<open>`R${row}C${col}`\<close>.\<close>

definition seatIdOf :: "int \<Rightarrow> int \<Rightarrow> string" where
  "seatIdOf r c = CHR ''R'' # showInt r @ CHR ''C'' # showInt c"

text \<open>
  \<^verbatim>\<open>getAdjacentSeatIds\<close>: the four candidates in the order up, down, left, right; the
  \<^verbatim>\<open>forEach\<close> pushes a candidate when some seat of the map has that identifier and the
  candidate is not the input.
\<close>

definition potentialAdjacents :: "int \<Rightarrow> int \<Rightarrow> string list" where
  "potentialAdjacents r c =
     [seatIdOf (r - 1) c, seatIdOf (r + 1) c, seatIdOf r (c - 1), seatIdOf r (c + 1)]"

definition getAdjacentSeatIds :: "string \<Rightarrow> SeatMapData list \<Rightarrow> string list" where
  "getAdjacentSeatIds sId sm =
     (case matchRC sId of
        None \<Rightarrow> []
      | Some (m1, m2) \<Rightarrow>
          let r = int (parseInt10 m1); c = int (parseInt10 m2)
          in foldl (\<lambda>adjacentIds adjId.
                      if list_ex (\<lambda>s. seatId s = adjId) sm \<and> adjId \<noteq> sId
                      then adjacentIds @ [adjId] else adjacentIds)
                   [] (potentialAdjacents r c))"

text \<open>
  The words of the specification, for comparison with the search: a run of digits;
  an identifier of the form R, row, C, column; an identifier that holds such a form
  somewhere inside.
\<close>

definition digitRun :: "string \<Rightarrow> bool" where
  "digitRun m = (m \<noteq> [] \<and> (\<forall>ch\<in>set m. isDigit ch))"

definition isSeatIdForm :: "string \<Rightarrow> bool" where
  "isSeatIdForm s = (\<exists>m1 m2. digitRun m1 \<and> digitRun m2 \<and> s = CHR ''R'' # m1 @ CHR ''C'' # m2)"

definition hasSeatPattern :: "string \<Rightarrow> bool" where
  "hasSeatPattern s =
     (\<exists>pre m1 m2 post. digitRun m1 \<and> digitRun m2
        \<and> s = pre @ CHR ''R'' # m1 @ CHR ''C'' # m2 @ post)"

section \<open>Constraint checker: \<^verbatim>\<open>checkRelationConstraints\<close>\<close>

text \<open>
  The body of the \<^verbatim>\<open>for (const rel of relations)\<close> loop, for the student with identifier
  \<open>sid\<close> and the adjacency list computed before the loop. A relation that does not
  name the student is passed over. The partner is the first student of \<open>allStudents\<close>
  with the other identifier; the relation is skipped (\<^verbatim>\<open>continue\<close>) when there is no
  such student, when the partner's \<^verbatim>\<open>isAssigned\<close> is false, or when the partner's
  \<^verbatim>\<open>assignedSeatId\<close> is falsy. Otherwise the loop returns false on a violated relation.
\<close>

fun relationsLoop :: "string \<Rightarrow> string list \<Rightarrow> Student list \<Rightarrow> RelationConfigData list \<Rightarrow> bool" where
  "relationsLoop sid adjacentSeats allStudents [] = True"
| "relationsLoop sid adjacentSeats allStudents (rel # rels) =
     (if studentId1 rel = sid \<or> studentId2 rel = sid then
        (let partnerId = (if studentId1 rel = sid then studentId2 rel else studentId1 rel)
         in case find (\<lambda>s. student_id s = partnerId) allStudents of
              None \<Rightarrow> relationsLoop sid adjacentSeats allStudents rels
            | Some partnerStudent \<Rightarrow>
                if \<not> isAssigned partnerStudent \<or> \<not> truthy (assignedSeatId partnerStudent)
                then relationsLoop sid adjacentSeats allStudents rels
                else
                  (case assignedSeatId partnerStudent of
                     None \<Rightarrow> relationsLoop sid adjacentSeats allStudents rels
                   | Some partnerSeatId \<Rightarrow>
                       (case rel_type rel of
                          CO_SEAT \<Rightarrow>
                            if partnerSeatId \<notin> set adjacentSeats then False
                            else relationsLoop sid adjacentSeats allStudents rels
                        | NO_CO_SEAT \<Rightarrow>
                            if partnerSeatId \<in> set adjacentSeats then False
                            else relationsLoop sid adjacentSeats allStudents rels)))
      else relationsLoop sid adjacentSeats allStudents rels)"

definition checkRelationConstraints ::
  "string \<Rightarrow> Student option \<Rightarrow> SeatMapData list \<Rightarrow> Student list \<Rightarrow> RelationConfigData list \<Rightarrow> bool" where
  "checkRelationConstraints targetSeatId assigningStudent currentSeatMap allStudents relations =
     (case assigningStudent of
        None \<Rightarrow> False
      | Some st \<Rightarrow>
          relationsLoop (student_id st) (getAdjacentSeatIds targetSeatId currentSeatMap)
            allStudents relations)"

text \<open>
  The words of the specification, for comparison with the loop: a relation involves a
  student when it names the student on either side; the partner is the other side; the
  partner's seat is known when the partner is found and assigned.
\<close>

definition involves :: "RelationConfigData \<Rightarrow> string \<Rightarrow> bool" where
  "involves rel sid = (studentId1 rel = sid \<or> studentId2 rel = sid)"

definition partnerOf :: "RelationConfigData \<Rightarrow> string \<Rightarrow> string" where
  "partnerOf rel sid = (if studentId1 rel = sid then studentId2 rel else studentId1 rel)"

definition seatedPartnerSeat :: "Student list \<Rightarrow> RelationConfigData \<Rightarrow> string \<Rightarrow> string option" where
  "seatedPartnerSeat allStudents rel sid =
     (case find (\<lambda>s. student_id s = partnerOf rel sid) allStudents of
        None \<Rightarrow> None
      | Some p \<Rightarrow> if isAssigned p \<and> truthy (assignedSeatId p) then assignedSeatId p else None)"

section \<open>Application state\<close>

text \<open>
  The user-facing messages are Japanese sentences built from a few templates. A message
  is a list of lines, one constructor a template, with the interpolated values as
  arguments; \<^verbatim>\<open>null\<close> is \<open>None\<close>.
\<close>

datatype MessageLine =
    NoStudentSelected
  | FixedSeatUnusable string string
  | FixedSeatOccupied string string
  | ManualSeatViolatesRelations string
  | ManualSeatUnavailable string
  | NoSeatSatisfyingRelations
  | NoStudentsToAssign
  | NoAvailableSeats
  | MoreStudentsThanSeats nat nat
  | FixedAssignmentProblems
  | FixedStudentNotFound string
  | FixedSeatNotFound string string
  | FixedSeatNotUsable string string
  | FixedSeatAlreadyTaken string string
  | SeatNotFoundReviewRelations string
  | SeatNotFound string

text \<open>
  The state the component reads and writes: the fields of \<^verbatim>\<open>useAppState()\<close> that the
  handlers use, and the component's own \<^verbatim>\<open>useState\<close> cells. The two timer references
  hold no data of the assignment and are left out.
\<close>

record AppState =
  students :: "Student list"
  seatMap :: "SeatMapData list"
  rouletteState :: RouletteState
  relationConfig :: "RelationConfigData list"
  fixedSeatAssignments :: "FixedSeatAssignment list"
  selectedStudentForAssignment :: "Student option"
  manuallySelectedSeatIdForRoulette :: "string option"
  localErrorMessage :: "MessageLine list option"
  openResultModal :: bool

text \<open>
  \<^verbatim>\<open>unassignedStudents\<close> is the filter below followed by a sort on
  \<^verbatim>\<open>Number(s.number)\<close>; the handlers modelled here read its length only, which the
  sort keeps. \<^verbatim>\<open>availableSeats\<close> is the list of usable seats whose
  \<^verbatim>\<open>assignedStudentId\<close> is falsy.
\<close>

definition unassignedStudents :: "AppState \<Rightarrow> Student list" where
  "unassignedStudents st = filter (\<lambda>s. \<not> isAssigned s) (students st)"

definition isAvailable :: "SeatMapData \<Rightarrow> bool" where
  "isAvailable seat = (isUsable seat \<and> \<not> truthy (assignedStudentId seat))"

definition availableSeats :: "AppState \<Rightarrow> SeatMapData list" where
  "availableSeats st = filter isAvailable (seatMap st)"

text \<open>
  The two \<^verbatim>\<open>map\<close> calls that every commit performs: the seats with the chosen
  identifier take the student's identifier, the students with that identifier become
  assigned to the chosen seat.
\<close>

definition assignSeat :: "string \<Rightarrow> string \<Rightarrow> SeatMapData list \<Rightarrow> SeatMapData list" where
  "assignSeat chosen sid sm =
     map (\<lambda>seat. if seatId seat = chosen then seat\<lparr>assignedStudentId := Some sid\<rparr> else seat) sm"

definition assignStudent :: "string \<Rightarrow> string \<Rightarrow> Student list \<Rightarrow> Student list" where
  "assignStudent chosen sid ss =
     map (\<lambda>s. if student_id s = sid then s\<lparr>isAssigned := True, assignedSeatId := Some chosen\<rparr> else s) ss"

section \<open>Single draw: \<^verbatim>\<open>stopRoulette\<close>\<close>

text \<open>
  The local variables \<^verbatim>\<open>finalChosenSeatId\<close>, \<^verbatim>\<open>isValidFinalSeat\<close> and the message set so
  far travel through the four steps as a record.
\<close>

record Choice =
  finalChosenSeatId :: "string option"
  isValidFinalSeat :: bool
  message :: "MessageLine list option"

text \<open>
  Steps 1 and 2, one \<^verbatim>\<open>if / else if\<close>: a fixed assignment of the student (the first one
  of the list) is validated against the first seat with its identifier; otherwise a
  truthy manual selection is looked up among the available seats and checked.
\<close>

definition resolveFixedOrManual :: "AppState \<Rightarrow> Student \<Rightarrow> Choice" where
  "resolveFixedOrManual st sel =
     (let start = \<lparr>finalChosenSeatId = None, isValidFinalSeat = False, message = None\<rparr>
      in case find (\<lambda>fsa. fixed_studentId fsa = student_id sel) (fixedSeatAssignments st) of
           Some fixedAssignmentForStudent \<Rightarrow>
             (let fixedSeatId = fixed_seatId fixedAssignmentForStudent
              in case find (\<lambda>seat. seatId seat = fixedSeatId) (seatMap st) of
                   None \<Rightarrow> start\<lparr>message := Some [FixedSeatUnusable (name sel) fixedSeatId]\<rparr>
                 | Some targetFixedSeat \<Rightarrow>
                     if \<not> isUsable targetFixedSeat
                     then start\<lparr>message := Some [FixedSeatUnusable (name sel) fixedSeatId]\<rparr>
                     else if truthy (assignedStudentId targetFixedSeat)
                             \<and> assignedStudentId targetFixedSeat \<noteq> Some (student_id sel)
                     then start\<lparr>message := Some [FixedSeatOccupied (name sel) fixedSeatId]\<rparr>
                     else start\<lparr>finalChosenSeatId := Some fixedSeatId, isValidFinalSeat := True\<rparr>)
         | None \<Rightarrow>
             if truthy (manuallySelectedSeatIdForRoulette st) then
               (case manuallySelectedSeatIdForRoulette st of
                  None \<Rightarrow> start
                | Some manual \<Rightarrow>
                    (case find (\<lambda>seat. seatId seat = manual) (availableSeats st) of
                       Some selectedSeatData \<Rightarrow>
                         if checkRelationConstraints manual (Some sel) (seatMap st) (students st)
                              (relationConfig st)
                         then start\<lparr>finalChosenSeatId := Some manual, isValidFinalSeat := True\<rparr>
                         else start\<lparr>message := Some [ManualSeatViolatesRelations manual]\<rparr>
                     | None \<Rightarrow> start\<lparr>message := Some [ManualSeatUnavailable manual]\<rparr>))
             else start)"

text \<open>
  Step 3: when no valid seat is chosen yet and the highlighted seat identifier is
  truthy, the highlighted seat is taken if it is available and passes the check.
\<close>

definition tryHighlighted :: "AppState \<Rightarrow> Student \<Rightarrow> Choice \<Rightarrow> Choice" where
  "tryHighlighted st sel ch =
     (if \<not> isValidFinalSeat ch \<and> truthy (currentSelectedSeatId (rouletteState st)) then
        (case currentSelectedSeatId (rouletteState st) of
           None \<Rightarrow> ch
         | Some highlighted \<Rightarrow>
             (case find (\<lambda>seat. seatId seat = highlighted) (availableSeats st) of
                None \<Rightarrow> ch
              | Some currentRouletteSeatData \<Rightarrow>
                  if checkRelationConstraints highlighted (Some sel) (seatMap st) (students st)
                       (relationConfig st)
                  then ch\<lparr>finalChosenSeatId := Some highlighted, isValidFinalSeat := True\<rparr>
                  else ch))
      else ch)"

text \<open>
  Step 4, the \<^verbatim>\<open>while (!isValidFinalSeat && attempts < maxAttempts)\<close> loop with
  \<^verbatim>\<open>maxAttempts = 100\<close>. The candidate is \<^verbatim>\<open>shuffled[attempts % shuffled.length]\<close>; on
  an empty list the index is \<^verbatim>\<open>NaN\<close> and the candidate \<^verbatim>\<open>undefined\<close>, which the guard
  \<^verbatim>\<open>potentialSeat && potentialSeat.seatId\<close> rejects, as it rejects a seat whose identifier is
  the empty string.
\<close>

function fallbackLoop ::
  "(string \<Rightarrow> bool) \<Rightarrow> SeatMapData list \<Rightarrow> nat \<Rightarrow> Choice \<Rightarrow> Choice" where
  "fallbackLoop chk shuffledAvailableSeats attempts ch =
     (if \<not> isValidFinalSeat ch \<and> attempts < 100 then
        (let potentialSeat =
               (if shuffledAvailableSeats = [] then None
                else Some (shuffledAvailableSeats ! (attempts mod length shuffledAvailableSeats)));
             ch' =
               (case potentialSeat of
                  None \<Rightarrow> ch
                | Some p \<Rightarrow>
                    if seatId p \<noteq> [] \<and> chk (seatId p)
                    then ch\<lparr>finalChosenSeatId := Some (seatId p), isValidFinalSeat := True\<rparr>
                    else ch)
         in fallbackLoop chk shuffledAvailableSeats (attempts + 1) ch')
      else ch)"
  by pat_completeness auto
termination
  by (relation "measure (\<lambda>(chk, sh, attempts, ch). 100 - attempts)") auto

declare fallbackLoop.simps [simp del]

text \<open>
  The state after a failed stop (no student selected, or no seat found): the roulette
  stops, the highlight and the current student are cleared, the manual selection is
  cleared, and the message is set. Seats, students and history are as before.
\<close>

definition failStop :: "MessageLine list \<Rightarrow> AppState \<Rightarrow> AppState" where
  "failStop msg st =
     st\<lparr>localErrorMessage := Some msg,
        rouletteState := (rouletteState st)\<lparr>isRunning := False, isStopped := True,
                           currentSelectedSeatId := None, currentAssigningStudent := None\<rparr>,
        manuallySelectedSeatIdForRoulette := None\<rparr>"

text \<open>
  The commit at the end of \<^verbatim>\<open>stopRoulette\<close>, with the message left by steps 1 and 2
  (the handler clears the message at its start and does not touch it again on this
  path).
\<close>

definition commitStop :: "Student \<Rightarrow> string \<Rightarrow> MessageLine list option \<Rightarrow> AppState \<Rightarrow> AppState" where
  "commitStop sel chosen msg st =
     st\<lparr>seatMap := assignSeat chosen (student_id sel) (seatMap st),
        students := assignStudent chosen (student_id sel) (students st),
        rouletteState := (rouletteState st)\<lparr>isRunning := False, isStopped := True,
                           currentSelectedSeatId := Some chosen,
                           currentAssigningStudent := Some sel,
                           winningHistory := winningHistory (rouletteState st)
                             @ [\<lparr>h_studentId = student_id sel, h_seatId = chosen\<rparr>]\<rparr>,
        manuallySelectedSeatIdForRoulette := None,
        localErrorMessage := msg,
        openResultModal := True\<rparr>"

text \<open>
  \<^verbatim>\<open>stopRoulette\<close>. The shuffle \<^verbatim>\<open>[...availableSeats].sort(() => Math.random() - 0.5)\<close> is
  the argument \<open>shuffled\<close>, some arrangement of the available seats. The commit is
  reached with \<^verbatim>\<open>isValidFinalSeat\<close> true, and every assignment that sets the flag sets
  the seat as well, so the last case below has no input that reaches it.
\<close>

definition stopRoulette :: "SeatMapData list \<Rightarrow> AppState \<Rightarrow> AppState" where
  "stopRoulette shuffled st =
     (if \<not> isRunning (rouletteState st) then st
      else case selectedStudentForAssignment st of
        None \<Rightarrow> failStop [NoStudentSelected] st
      | Some sel \<Rightarrow>
          (let ch3 = tryHighlighted st sel (resolveFixedOrManual st sel);
               ch4 = (if \<not> isValidFinalSeat ch3
                      then fallbackLoop
                             (\<lambda>sId. checkRelationConstraints sId (Some sel) (seatMap st)
                                      (students st) (relationConfig st))
                             shuffled 0 ch3
                      else ch3)
           in if \<not> isValidFinalSeat ch3
                 \<and> (\<not> isValidFinalSeat ch4 \<or> \<not> truthy (finalChosenSeatId ch4))
              then failStop [NoSeatSatisfyingRelations] st
              else (case finalChosenSeatId ch4 of
                      Some chosen \<Rightarrow> commitStop sel chosen (message ch4) st
                    | None \<Rightarrow> st)))"

section \<open>Reset: \<^verbatim>\<open>handleResetRoulette\<close>\<close>

text \<open>
  \<open>confirmed\<close> is the answer to \<^verbatim>\<open>window.confirm\<close>. The next student is the first of
  the unassigned students sorted by \<^verbatim>\<open>Number(s.number)\<close>; the sort is the argument
  \<open>sortByNumber\<close>.
\<close>

definition handleResetRoulette ::
  "bool \<Rightarrow> (Student list \<Rightarrow> Student list) \<Rightarrow> AppState \<Rightarrow> AppState" where
  "handleResetRoulette confirmed sortByNumber st =
     (if confirmed then
        (let resetSeatMap = map (\<lambda>seat. seat\<lparr>assignedStudentId := None\<rparr>) (seatMap st);
             resetStudents = map (\<lambda>s. s\<lparr>isAssigned := False, assignedSeatId := None\<rparr>) (students st);
             initialAssigningStudent =
               (case sortByNumber (filter (\<lambda>s. \<not> isAssigned s) resetStudents) of
                  [] \<Rightarrow> None
                | s # _ \<Rightarrow> Some s)
         in st\<lparr>seatMap := resetSeatMap,
               students := resetStudents,
               rouletteState := \<lparr>isRunning = False, currentSelectedSeatId = None,
                                 currentAssigningStudent = initialAssigningStudent,
                                 winningHistory = [], isStopped = False\<rparr>,
               localErrorMessage := None,
               selectedStudentForAssignment := initialAssigningStudent,
               manuallySelectedSeatIdForRoulette := None\<rparr>)
      else st)"

section \<open>Batch assignment: \<^verbatim>\<open>handleBulkAssign\<close>\<close>

text \<open>
  The working copies of the handler: \<^verbatim>\<open>tempSeatMap\<close>, \<^verbatim>\<open>tempStudents\<close>,
  \<^verbatim>\<open>tempWinningHistory\<close>, the two \<^verbatim>\<open>Set\<close>s of identifiers committed in this call (lists
  here, read through membership only), the errors of phase 1, the list
  \<^verbatim>\<open>remainingAvailableSeats\<close> that phase 2 splices, and the message as the queued
  updates of \<^verbatim>\<open>setLocalErrorMessage\<close> leave it.
\<close>

record BulkTemp =
  tempSeatMap :: "SeatMapData list"
  tempStudents :: "Student list"
  tempWinningHistory :: "HistoryEntry list"
  assignedStudentIdsInTemp :: "string list"
  assignedSeatIdsInTemp :: "string list"
  fixedAssignmentErrors :: "MessageLine list"
  remainingAvailableSeats :: "SeatMapData list"
  bulkMessage :: "MessageLine list option"

text \<open>The assignment both phases perform once a seat is chosen for a student.\<close>

definition commitBulk :: "Student \<Rightarrow> string \<Rightarrow> BulkTemp \<Rightarrow> BulkTemp" where
  "commitBulk student chosen t =
     t\<lparr>tempSeatMap := assignSeat chosen (student_id student) (tempSeatMap t),
       tempStudents := assignStudent chosen (student_id student) (tempStudents t),
       tempWinningHistory := tempWinningHistory t
         @ [\<lparr>h_studentId = student_id student, h_seatId = chosen\<rparr>],
       assignedStudentIdsInTemp := assignedStudentIdsInTemp t @ [student_id student],
       assignedSeatIdsInTemp := assignedSeatIdsInTemp t @ [chosen]\<rparr>"

definition pushFixedError :: "MessageLine \<Rightarrow> BulkTemp \<Rightarrow> BulkTemp" where
  "pushFixedError e t = t\<lparr>fixedAssignmentErrors := fixedAssignmentErrors t @ [e]\<rparr>"

text \<open>Phase 1, the body of \<^verbatim>\<open>fixedSeatAssignments.forEach\<close>.\<close>

definition fixedStep :: "BulkTemp \<Rightarrow> FixedSeatAssignment \<Rightarrow> BulkTemp" where
  "fixedStep t fixedAssignment =
     (case find (\<lambda>s. student_id s = fixed_studentId fixedAssignment) (tempStudents t) of
        None \<Rightarrow> pushFixedError (FixedStudentNotFound (fixed_studentId fixedAssignment)) t
      | Some student \<Rightarrow>
          (case find (\<lambda>s. seatId s = fixed_seatId fixedAssignment) (tempSeatMap t) of
             None \<Rightarrow>
               pushFixedError (FixedSeatNotFound (name student) (fixed_seatId fixedAssignment)) t
           | Some fixedSeat \<Rightarrow>
               if \<not> isUsable fixedSeat
               then pushFixedError
                      (FixedSeatNotUsable (name student) (fixed_seatId fixedAssignment)) t
               else if truthy (assignedStudentId fixedSeat)
                       \<and> assignedStudentId fixedSeat \<noteq> Some (student_id student)
               then pushFixedError
                      (FixedSeatAlreadyTaken (name student) (fixed_seatId fixedAssignment)) t
               else if student_id student \<in> set (assignedStudentIdsInTemp t) then t
               else if seatId fixedSeat \<in> set (assignedSeatIdsInTemp t) then t
               else commitBulk student (seatId fixedSeat) t))"

text \<open>
  Phase 2, the inner \<^verbatim>\<open>while\<close> loop for one student. The result is the flag
  \<^verbatim>\<open>assigned\<close> and the working copies. \<^verbatim>\<open>splice(currentSeatIndex, 1)\<close> removes the chosen
  seat from the remaining list.
\<close>

function seatLoop ::
  "RelationConfigData list \<Rightarrow> Student \<Rightarrow> nat \<Rightarrow> nat \<Rightarrow> nat \<Rightarrow> BulkTemp \<Rightarrow> bool \<times> BulkTemp" where
  "seatLoop relations student maxAttempts currentSeatIndex attempts t =
     (if currentSeatIndex < length (remainingAvailableSeats t) \<and> attempts < maxAttempts then
        (let potentialSeat = remainingAvailableSeats t ! currentSeatIndex
         in if seatId potentialSeat = []
            then seatLoop relations student maxAttempts (currentSeatIndex + 1) (attempts + 1) t
            else if seatId potentialSeat \<in> set (assignedSeatIdsInTemp t)
            then seatLoop relations student maxAttempts (currentSeatIndex + 1) (attempts + 1) t
            else if checkRelationConstraints (seatId potentialSeat) (Some student)
                      (tempSeatMap t) (tempStudents t) relations
            then (True,
                  (commitBulk student (seatId potentialSeat) t)
                    \<lparr>remainingAvailableSeats :=
                       take currentSeatIndex (remainingAvailableSeats t)
                       @ drop (Suc currentSeatIndex) (remainingAvailableSeats t)\<rparr>)
            else seatLoop relations student maxAttempts (currentSeatIndex + 1) (attempts + 1) t)
      else (False, t))"
  by pat_completeness auto
termination
  by (relation "measure (\<lambda>(relations, student, maxAttempts, currentSeatIndex, attempts, t).
                   length (remainingAvailableSeats t) - currentSeatIndex)") auto

declare seatLoop.simps [simp del]

text \<open>
  Phase 2, the body of \<^verbatim>\<open>remainingUnassignedStudents.forEach\<close>. A student without a
  seat adds a line to the message: appended to the message when there is one, a
  message of its own otherwise.
\<close>

definition studentStep :: "RelationConfigData list \<Rightarrow> BulkTemp \<Rightarrow> Student \<Rightarrow> BulkTemp" where
  "studentStep relations t student =
     (if student_id student \<in> set (assignedStudentIdsInTemp t) then t
      else
        (let maxAttempts = length (remainingAvailableSeats t) * 2;
             (assigned, t') = seatLoop relations student maxAttempts 0 0 t
         in if assigned then t'
            else t'\<lparr>bulkMessage :=
                      (case bulkMessage t' of
                         Some prev \<Rightarrow> Some (prev @ [SeatNotFound (name student)])
                       | None \<Rightarrow> Some [SeatNotFoundReviewRelations (name student)])\<rparr>))"

text \<open>
  \<^verbatim>\<open>handleBulkAssign\<close>. \<open>confirmed\<close> is the answer to \<^verbatim>\<open>window.confirm\<close>; the two
  Fisher-Yates shuffles are the arguments \<open>shuffleStudents\<close> and \<open>shuffleSeats\<close>. The
  deep copies through JSON are copies of plain data.
\<close>

definition handleBulkAssign ::
  "bool \<Rightarrow> (Student list \<Rightarrow> Student list) \<Rightarrow> (SeatMapData list \<Rightarrow> SeatMapData list)
     \<Rightarrow> AppState \<Rightarrow> AppState" where
  "handleBulkAssign confirmed shuffleStudents shuffleSeats st =
     (if length (unassignedStudents st) = 0
      then st\<lparr>localErrorMessage := Some [NoStudentsToAssign]\<rparr>
      else if length (availableSeats st) = 0
      then st\<lparr>localErrorMessage := Some [NoAvailableSeats]\<rparr>
      else if length (unassignedStudents st) > length (availableSeats st)
      then st\<lparr>localErrorMessage :=
                Some [MoreStudentsThanSeats (length (unassignedStudents st))
                        (length (availableSeats st))]\<rparr>
      else if \<not> confirmed then st
      else
        (let t0 = \<lparr>tempSeatMap = seatMap st, tempStudents = students st,
                   tempWinningHistory = winningHistory (rouletteState st),
                   assignedStudentIdsInTemp = [], assignedSeatIdsInTemp = [],
                   fixedAssignmentErrors = [], remainingAvailableSeats = [],
                   bulkMessage = None\<rparr>;
             t1 = foldl fixedStep t0 (fixedSeatAssignments st);
             t1' = (if length (fixedAssignmentErrors t1) > 0
                    then t1\<lparr>bulkMessage := Some (FixedAssignmentProblems # fixedAssignmentErrors t1)\<rparr>
                    else t1);
             remainingUnassignedStudents =
               shuffleStudents (filter (\<lambda>s. \<not> isAssigned s) (tempStudents t1'));
             t2 = t1'\<lparr>remainingAvailableSeats :=
                        shuffleSeats (filter isAvailable (tempSeatMap t1'))\<rparr>;
             t3 = foldl (studentStep (relationConfig st)) t2 remainingUnassignedStudents
         in st\<lparr>seatMap := tempSeatMap t3,
               students := tempStudents t3,
               rouletteState := (rouletteState st)\<lparr>winningHistory := tempWinningHistory t3,
                                  isRunning := False, isStopped := True,
                                  currentSelectedSeatId := None,
                                  currentAssigningStudent := None\<rparr>,
               selectedStudentForAssignment := None,
               manuallySelectedSeatIdForRoulette := None,
               localErrorMessage := bulkMessage t3\<rparr>))"

section \<open>Example data\<close>

text \<open>
  Seats and students for the scenarios: a seat with its identifier, usability and
  holder; a student with an identifier and a seat, assigned exactly when the seat is
  given; the 3 by 3 grid with every seat usable and free.
\<close>

definition mkSeat :: "string \<Rightarrow> bool \<Rightarrow> string option \<Rightarrow> SeatMapData" where
  "mkSeat i usable holder =
     \<lparr>seatId = i, row = 0, col = 0, assignedStudentId = holder, isUsable = usable\<rparr>"

definition mkStudent :: "string \<Rightarrow> string option \<Rightarrow> Student" where
  "mkStudent i seat =
     \<lparr>student_id = i, number = i, name = i, kana = [], info1 = [], info2 = [], info3 = [],
      isAssigned = (seat \<noteq> None), assignedSeatId = seat\<rparr>"

definition mkRelation :: "string \<Rightarrow> string \<Rightarrow> RelationType \<Rightarrow> RelationConfigData" where
  "mkRelation a b t = \<lparr>studentId1 = a, studentId2 = b, rel_type = t\<rparr>"

definition grid3 :: "SeatMapData list" where
  "grid3 = map (\<lambda>i. mkSeat i True None)
     [''R1C1'', ''R1C2'', ''R1C3'', ''R2C1'', ''R2C2'', ''R2C3'', ''R3C1'', ''R3C2'', ''R3C3'']"

text \<open>The state of a running draw for the student \<open>sel\<close>, with an empty history.\<close>

definition runningState ::
  "Student list \<Rightarrow> SeatMapData list \<Rightarrow> RelationConfigData list \<Rightarrow> FixedSeatAssignment list
     \<Rightarrow> Student \<Rightarrow> string option \<Rightarrow> string option \<Rightarrow> AppState" where
  "runningState ss sm rels fixed sel manual highlighted =
     \<lparr>students = ss, seatMap = sm,
      rouletteState = \<lparr>isRunning = True, currentSelectedSeatId = highlighted,
                        currentAssigningStudent = Some sel, winningHistory = [],
                        isStopped = False\<rparr>,
      relationConfig = rels, fixedSeatAssignments = fixed,
      selectedStudentForAssignment = Some sel,
      manuallySelectedSeatIdForRoulette = manual,
      localErrorMessage = None, openResultModal = False\<rparr>"

text \<open>
  S1 has the fixed seat R1C1, which S2 holds; R1C2 is free; nothing is highlighted or
  selected by hand.
\<close>

definition fixedConflictState :: AppState where
  "fixedConflictState =
     runningState [mkStudent ''S1'' None, mkStudent ''S2'' (Some ''R1C1'')]
       [mkSeat ''R1C1'' True (Some ''S2''), mkSeat ''R1C2'' True None] []
       [\<lparr>fixed_studentId = ''S1'', fixed_seatId = ''R1C1''\<rparr>]
       (mkStudent ''S1'' None) None None"

text \<open>
  S1 must not sit next to S2, who holds R1C1; S1 has no fixed seat and the user has
  clicked R1C2, next to R1C1; R1C3 is free as well.
\<close>

definition manualInadmissibleState :: AppState where
  "manualInadmissibleState =
     runningState [mkStudent ''S1'' None, mkStudent ''S2'' (Some ''R1C1'')]
       [mkSeat ''R1C1'' True (Some ''S2''), mkSeat ''R1C2'' True None, mkSeat ''R1C3'' True None]
       [mkRelation ''S1'' ''S2'' NO_CO_SEAT] []
       (mkStudent ''S1'' None) (Some ''R1C2'') None"

text \<open>
  S1 must not sit next to S2, who holds R1C1, and S1 has the fixed seat R1C2, usable
  and free.
\<close>

definition fixedViolatingState :: AppState where
  "fixedViolatingState =
     runningState [mkStudent ''S1'' None, mkStudent ''S2'' (Some ''R1C1'')]
       [mkSeat ''R1C1'' True (Some ''S2''), mkSeat ''R1C2'' True None, mkSeat ''R1C3'' True None]
       [mkRelation ''S1'' ''S2'' NO_CO_SEAT]
       [\<lparr>fixed_studentId = ''S1'', fixed_seatId = ''R1C2''\<rparr>]
       (mkStudent ''S1'' None) None None"

text \<open>Five unassigned students and four usable free seats, no relation, no fixed seat.\<close>

definition fiveStudentsFourSeats :: AppState where
  "fiveStudentsFourSeats =
     \<lparr>students = map (\<lambda>i. mkStudent i None) [''S1'', ''S2'', ''S3'', ''S4'', ''S5''],
      seatMap = map (\<lambda>i. mkSeat i True None) [''R1C1'', ''R1C2'', ''R2C1'', ''R2C2''],
      rouletteState = \<lparr>isRunning = False, currentSelectedSeatId = None,
                        currentAssigningStudent = None, winningHistory = [],
                        isStopped = False\<rparr>,
      relationConfig = [], fixedSeatAssignments = [],
      selectedStudentForAssignment = None,
      manuallySelectedSeatIdForRoulette = None,
      localErrorMessage = None, openResultModal = False\<rparr>"

text \<open>
  As in \<open>manualInadmissibleState\<close>, with no seat selected by hand and the roulette
  stopped on R1C2.
\<close>

definition fallbackState :: AppState where
  "fallbackState =
     runningState [mkStudent ''S1'' None, mkStudent ''S2'' (Some ''R1C1'')]
       [mkSeat ''R1C1'' True (Some ''S2''), mkSeat ''R1C2'' True None, mkSeat ''R1C3'' True None]
       [mkRelation ''S1'' ''S2'' NO_CO_SEAT] []
       (mkStudent ''S1'' None) None (Some ''R1C2'')"

section \<open>The assignment invariant\<close>

text \<open>
  The seats that the students of a list hold, in list order, one entry for each student
  with a seat. The invariant of the specification: a student's \<^verbatim>\<open>isAssigned\<close> is true
  exactly when its \<^verbatim>\<open>assignedSeatId\<close> is not null, and no seat identifier is held
  twice.
\<close>

definition heldSeats :: "Student list \<Rightarrow> string list" where
  "heldSeats ss = concat (map (\<lambda>s. case assignedSeatId s of None \<Rightarrow> [] | Some q \<Rightarrow> [q]) ss)"

definition assignmentInvariant :: "Student list \<Rightarrow> bool" where
  "assignmentInvariant ss =
     ((\<forall>s\<in>set ss. isAssigned s = (assignedSeatId s \<noteq> None)) \<and> distinct (heldSeats ss))"

text \<open>
  The invariant together with what the data model provides and what the handlers
  maintain besides: student identifiers are unique and not empty, and every seat record
  carrying the identifier of a seat that a student holds names that student as its
  holder. It holds in a state without assignments, and the handlers are shown to keep
  it.
\<close>

definition seatsAgree :: "Student list \<Rightarrow> SeatMapData list \<Rightarrow> bool" where
  "seatsAgree ss sm =
     (\<forall>s\<in>set ss. \<forall>seat\<in>set sm.
        assignedSeatId s = Some (seatId seat) \<longrightarrow> assignedStudentId seat = Some (student_id s))"

definition consistent :: "Student list \<Rightarrow> SeatMapData list \<Rightarrow> bool" where
  "consistent ss sm =
     (distinct (map student_id ss) \<and> (\<forall>s\<in>set ss. student_id s \<noteq> [])
      \<and> assignmentInvariant ss \<and> seatsAgree ss sm)"

text \<open>
  The states of a session. It starts with unique, non-empty student identifiers and no
  student assigned. A draw is stopped with some arrangement of the available seats, a
  batch runs with shuffles that rearrange their argument, a reset may be confirmed or
  not. Every other handler (start, selection of a student or of a seat, the highlight
  tick, closing the result, editing relations and fixed seats) leaves students and
  seats as they are.
\<close>

inductive reachable :: "AppState \<Rightarrow> bool" where
  initial:
    "distinct (map student_id (students st)) \<Longrightarrow>
     \<forall>s\<in>set (students st). student_id s \<noteq> [] \<and> \<not> isAssigned s \<and> assignedSeatId s = None \<Longrightarrow>
     reachable st"
| control:
    "reachable st \<Longrightarrow> students st' = students st \<Longrightarrow> seatMap st' = seatMap st \<Longrightarrow>
     reachable st'"
| stop:
    "reachable st \<Longrightarrow> mset shuffled = mset (availableSeats st) \<Longrightarrow>
     reachable (stopRoulette shuffled st)"
| bulk:
    "reachable st \<Longrightarrow> \<forall>xs. mset (shuffleSeats xs) = mset xs \<Longrightarrow>
     reachable (handleBulkAssign confirmed shuffleStudents shuffleSeats st)"
| reset:
    "reachable st \<Longrightarrow> reachable (handleResetRoulette confirmed sortByNumber st)"

text \<open>
  Three unassigned students on three free seats; S3 must not sit next to S1; S2 has the
  fixed seat R1C2; a draw for S1 is running with R1C1 highlighted.
\<close>

definition sessionStart :: AppState where
  "sessionStart =
     runningState [mkStudent ''S1'' None, mkStudent ''S2'' None, mkStudent ''S3'' None]
       [mkSeat ''R1C1'' True None, mkSeat ''R1C2'' True None, mkSeat ''R2C2'' True None]
       [mkRelation ''S1'' ''S3'' NO_CO_SEAT]
       [\<lparr>fixed_studentId = ''S2'', fixed_seatId = ''R1C2''\<rparr>]
       (mkStudent ''S1'' None) None (Some ''R1C1'')"

section \<open>Properties of the grid topology\<close>

lemma foldl_push_filter:
  "foldl (\<lambda>acc a. if P a then acc @ [a] else acc) acc0 xs = acc0 @ filter P xs"
  by (induction xs arbitrary: acc0) auto

lemma isDigit_digitChar: "d < 10 \<Longrightarrow> isDigit (digitChar d)"
  by (simp add: isDigit_def digitChar_def)

lemma digitVal_digitChar: "d < 10 \<Longrightarrow> digitVal (digitChar d) = d"
  by (simp add: digitVal_def digitChar_def)

lemma showNat_digits: "\<forall>ch\<in>set (showNat n). isDigit ch"
proof (induction n rule: showNat.induct)
  case (1 n)
  show ?case
  proof (cases "n < 10")
    case True
    then show ?thesis by (subst showNat.simps) (simp add: isDigit_digitChar)
  next
    case False
    with 1 show ?thesis by (subst showNat.simps) (simp add: isDigit_digitChar)
  qed
qed

lemma showNat_nonempty: "showNat n \<noteq> []"
  by (subst showNat.simps) simp

lemma parseInt10_snoc: "parseInt10 (ds @ [ch]) = 10 * parseInt10 ds + digitVal ch"
  by (simp add: parseInt10_def)

text \<open>Reading back the digits of a number gives the number.\<close>

lemma parseInt10_showNat: "parseInt10 (showNat n) = n"
proof (induction n rule: showNat.induct)
  case (1 n)
  show ?case
  proof (cases "n < 10")
    case True
    then show ?thesis by (subst showNat.simps) (simp add: parseInt10_def digitVal_digitChar)
  next
    case False
    with 1 have "parseInt10 (showNat (n div 10)) = n div 10" by simp
    with False show ?thesis
      by (subst showNat.simps) (simp add: parseInt10_snoc digitVal_digitChar)
  qed
qed

lemma showNat_inj: "showNat a = showNat b \<Longrightarrow> a = b"
  by (metis parseInt10_showNat)

lemma isDigit_not_minus: "isDigit ch \<Longrightarrow> ch \<noteq> CHR ''-''"
  by (auto simp: isDigit_def)

lemma isDigit_not_C: "isDigit ch \<Longrightarrow> ch \<noteq> CHR ''C''"
  by (auto simp: isDigit_def)

lemma showNat_hd_digit: "isDigit (hd (showNat n))"
  using showNat_digits [of n] showNat_nonempty [of n] by (cases "showNat n") auto

lemma showInt_inj: "showInt a = showInt b \<Longrightarrow> a = b"
proof -
  assume eq: "showInt a = showInt b"
  have neq: "CHR ''-'' # xs \<noteq> showNat n" for xs n
    using showNat_hd_digit [of n] isDigit_not_minus by (metis list.sel(1))
  show ?thesis
  proof (cases "a < 0")
    case True
    show ?thesis
    proof (cases "b < 0")
      case True
      with \<open>a < 0\<close> eq have "nat (- a) = nat (- b)"
        by (simp add: showInt_def showNat_inj)
      with True \<open>a < 0\<close> show ?thesis by simp
    next
      case False
      with \<open>a < 0\<close> eq neq show ?thesis by (simp add: showInt_def)
    qed
  next
    case False
    show ?thesis
    proof (cases "b < 0")
      case True
      with False eq neq [of "showNat (nat (- b))" "nat a"] show ?thesis
        by (simp add: showInt_def)
    next
      case False
      with \<open>\<not> a < 0\<close> eq have "nat a = nat b" by (simp add: showInt_def showNat_inj)
      with False \<open>\<not> a < 0\<close> show ?thesis by simp
    qed
  qed
qed

lemma showInt_no_C: "CHR ''C'' \<notin> set (showInt a)"
  using showNat_digits isDigit_not_C by (auto simp: showInt_def)

lemma append_sep_eq:
  assumes "x \<notin> set xs" "x \<notin> set ys" "xs @ x # us = ys @ x # vs"
  shows "xs = ys \<and> us = vs"
proof -
  have "takeWhile (\<lambda>y. y \<noteq> x) (xs @ x # us) = xs" using assms(1)
    by (auto simp: takeWhile_tail takeWhile_eq_all_conv)
  moreover have "takeWhile (\<lambda>y. y \<noteq> x) (ys @ x # vs) = ys" using assms(2)
    by (auto simp: takeWhile_tail takeWhile_eq_all_conv)
  ultimately have "xs = ys" using assms(3) by simp
  with assms(3) show ?thesis by simp
qed

text \<open>Two seat identifiers built from the template are equal only for equal coordinates.\<close>

lemma seatIdOf_inj: "seatIdOf r c = seatIdOf r' c' \<Longrightarrow> r = r' \<and> c = c'"
  unfolding seatIdOf_def
  using append_sep_eq [of "CHR ''C''" "showInt r" "showInt r'" "showInt c" "showInt c'"]
  by (auto simp: showInt_no_C dest: showInt_inj)

lemma getAdjacentSeatIds_filter:
  "matchRC sId = Some (m1, m2) \<Longrightarrow>
   getAdjacentSeatIds sId sm =
     filter (\<lambda>a. a \<in> seatId ` set sm \<and> a \<noteq> sId)
       (potentialAdjacents (int (parseInt10 m1)) (int (parseInt10 m2)))"
  by (simp add: getAdjacentSeatIds_def foldl_push_filter list_ex_iff image_iff Bex_def
        conj_commute eq_commute cong: filter_cong)

text \<open>An identifier built from the template with natural coordinates parses to them.\<close>

lemma matchHere_seatIdOf:
  "matchHere (seatIdOf (int r) (int c)) = Some (showNat r, showNat c)"
proof -
  have notC: "\<not> isDigit CHR ''C''" by (simp add: isDigit_def)
  have tw1: "takeWhile isDigit (showNat r @ CHR ''C'' # showNat c) = showNat r"
    using showNat_digits [of r] notC by (auto simp: takeWhile_tail takeWhile_eq_all_conv)
  have dw1: "dropWhile isDigit (showNat r @ CHR ''C'' # showNat c) = CHR ''C'' # showNat c"
    using showNat_digits [of r] notC by (simp add: dropWhile_append3)
  have tw2: "takeWhile isDigit (showNat c) = showNat c"
    using showNat_digits [of c] by (auto simp: takeWhile_eq_all_conv)
  show ?thesis
    by (simp add: matchHere_def seatIdOf_def showInt_def tw1 dw1 tw2 showNat_nonempty)
qed

lemma matchRC_seatIdOf:
  "matchRC (seatIdOf (int r) (int c)) = Some (showNat r, showNat c)"
proof -
  obtain x xs where "seatIdOf (int r) (int c) = x # xs" by (simp add: seatIdOf_def)
  with matchHere_seatIdOf [of r c] show ?thesis by simp
qed

text \<open>
  For an identifier built from the template the clause that keeps the input out of the
  result is never needed.
\<close>

lemma getAdjacentSeatIds_canonical:
  "getAdjacentSeatIds (seatIdOf (int r) (int c)) sm =
     filter (\<lambda>a. a \<in> seatId ` set sm)
       [seatIdOf (int r - 1) (int c), seatIdOf (int r + 1) (int c),
        seatIdOf (int r) (int c - 1), seatIdOf (int r) (int c + 1)]"
proof -
  have ne: "a \<in> set (potentialAdjacents (int r) (int c)) \<Longrightarrow> a \<noteq> seatIdOf (int r) (int c)" for a
    by (auto simp: potentialAdjacents_def dest!: seatIdOf_inj)
  have "getAdjacentSeatIds (seatIdOf (int r) (int c)) sm =
     filter (\<lambda>a. a \<in> seatId ` set sm \<and> a \<noteq> seatIdOf (int r) (int c))
       (potentialAdjacents (int r) (int c))"
    using getAdjacentSeatIds_filter [OF matchRC_seatIdOf, of r c sm]
    by (simp add: parseInt10_showNat)
  also have "\<dots> = filter (\<lambda>a. a \<in> seatId ` set sm) (potentialAdjacents (int r) (int c))"
    using ne by (intro filter_cong) auto
  finally show ?thesis by (simp add: potentialAdjacents_def)
qed

subsection \<open>The search and the form of an identifier\<close>

lemma notDigit_C: "\<not> isDigit CHR ''C''"
  by (simp add: isDigit_def)

lemma takeWhile_digitRun:
  "\<forall>ch\<in>set m. isDigit ch \<Longrightarrow> takeWhile isDigit (m @ CHR ''C'' # rest) = m"
  using notDigit_C by (auto simp: takeWhile_tail takeWhile_eq_all_conv)

lemma dropWhile_digitRun:
  "\<forall>ch\<in>set m. isDigit ch \<Longrightarrow> dropWhile isDigit (m @ CHR ''C'' # rest) = CHR ''C'' # rest"
  using notDigit_C by (simp add: dropWhile_append3)

text \<open>What the match at the start of a string reads.\<close>

lemma matchHere_sound:
  assumes "matchHere s = Some (m1, m2)"
  shows "digitRun m1 \<and> digitRun m2 \<and> (\<exists>post. s = CHR ''R'' # m1 @ CHR ''C'' # m2 @ post)"
proof -
  from assms obtain rest where s: "s = CHR ''R'' # rest"
    by (cases s) (auto simp: matchHere_def split: if_splits)
  from assms s have m1: "m1 = takeWhile isDigit rest" and ne1: "m1 \<noteq> []"
    by (auto simp: matchHere_def Let_def split: if_splits list.splits)
  from assms s obtain rest2 where r1: "dropWhile isDigit rest = CHR ''C'' # rest2"
    by (auto simp: matchHere_def Let_def split: if_splits list.splits)
  from assms s r1 have m2: "m2 = takeWhile isDigit rest2" and ne2: "m2 \<noteq> []"
    by (auto simp: matchHere_def Let_def split: if_splits list.splits)
  have d1: "\<forall>ch\<in>set m1. isDigit ch" unfolding m1 by (auto dest: set_takeWhileD)
  have d2: "\<forall>ch\<in>set m2. isDigit ch" unfolding m2 by (auto dest: set_takeWhileD)
  have "rest = m1 @ CHR ''C'' # rest2"
    unfolding m1 using r1 by (metis takeWhile_dropWhile_id)
  moreover have "rest2 = m2 @ dropWhile isDigit rest2"
    unfolding m2 by simp
  ultimately have "s = CHR ''R'' # m1 @ CHR ''C'' # m2 @ dropWhile isDigit rest2"
    using s by simp
  with ne1 ne2 d1 d2 show ?thesis by (auto simp: digitRun_def)
qed

lemma matchRC_sound:
  "matchRC s = Some (m1, m2) \<Longrightarrow>
   digitRun m1 \<and> digitRun m2 \<and> (\<exists>pre post. s = pre @ CHR ''R'' # m1 @ CHR ''C'' # m2 @ post)"
proof (induction s)
  case Nil
  then show ?case by (simp add: matchHere_def)
next
  case (Cons x xs)
  show ?case
  proof (cases "matchHere (x # xs)")
    case None
    with Cons.prems have "matchRC xs = Some (m1, m2)" by simp
    from Cons.IH [OF this] obtain pre post where
      "digitRun m1" "digitRun m2" "xs = pre @ CHR ''R'' # m1 @ CHR ''C'' # m2 @ post"
      by blast
    then have "x # xs = (x # pre) @ CHR ''R'' # m1 @ CHR ''C'' # m2 @ post" by simp
    with \<open>digitRun m1\<close> \<open>digitRun m2\<close> show ?thesis by blast
  next
    case (Some g)
    with Cons.prems have "matchHere (x # xs) = Some (m1, m2)" by simp
    from matchHere_sound [OF this] show ?thesis by (metis append_Nil)
  qed
qed

lemma matchHere_pattern:
  assumes "digitRun m1" "digitRun m2"
  shows "matchHere (CHR ''R'' # m1 @ CHR ''C'' # m2 @ post)
           = Some (m1, takeWhile isDigit (m2 @ post))"
proof -
  from assms have d1: "\<forall>ch\<in>set m1. isDigit ch" and ne1: "m1 \<noteq> []"
    and ne2: "m2 \<noteq> []" and d2: "\<forall>ch\<in>set m2. isDigit ch"
    by (simp_all add: digitRun_def)
  from ne2 d2 have "takeWhile isDigit (m2 @ post) \<noteq> []"
    by (cases m2) auto
  with ne1 show ?thesis
    by (simp add: matchHere_def takeWhile_digitRun [OF d1] dropWhile_digitRun [OF d1])
qed

lemma matchRC_complete: "hasSeatPattern s \<Longrightarrow> matchRC s \<noteq> None"
proof -
  have "digitRun m1 \<Longrightarrow> digitRun m2 \<Longrightarrow>
        matchRC (pre @ CHR ''R'' # m1 @ CHR ''C'' # m2 @ post) \<noteq> None" for pre m1 m2 post
  proof (induction pre)
    case Nil
    then show ?case by (simp add: matchHere_pattern)
  next
    case (Cons x pre)
    then show ?case by (simp split: option.splits)
  qed
  then show "hasSeatPattern s \<Longrightarrow> matchRC s \<noteq> None"
    by (auto simp: hasSeatPattern_def)
qed

text \<open>The search fails exactly on the identifiers that hold no such form.\<close>

lemma matchRC_None_iff: "matchRC s = None \<longleftrightarrow> \<not> hasSeatPattern s"
proof
  assume "matchRC s = None"
  then show "\<not> hasSeatPattern s" using matchRC_complete by blast
next
  assume n: "\<not> hasSeatPattern s"
  show "matchRC s = None"
  proof (rule ccontr)
    assume "matchRC s \<noteq> None"
    then obtain m1 m2 where "matchRC s = Some (m1, m2)" by auto
    from matchRC_sound [OF this] n show False by (auto simp: hasSeatPattern_def)
  qed
qed

text \<open>An identifier of the form is read as a whole.\<close>

lemma matchRC_whole:
  assumes "digitRun m1" "digitRun m2"
  shows "matchRC (CHR ''R'' # m1 @ CHR ''C'' # m2) = Some (m1, m2)"
proof -
  from assms(2) have "takeWhile isDigit m2 = m2"
    by (auto simp: digitRun_def takeWhile_eq_all_conv)
  with matchHere_pattern [OF assms, of "[]"] show ?thesis by simp
qed

text \<open>
  C5, as claimed: an identifier that is not of the form R, row, C, column gives the
  empty list. The identifier xxR2C2yy is not of that form; the search finds R2C2 inside
  it, and on the 3 by 3 grid the result is the four neighbours of R2C2.
\<close>

theorem getAdjacentSeatIds_unanchored_counterexample:
  "\<not> isSeatIdForm ''xxR2C2yy''
   \<and> getAdjacentSeatIds ''xxR2C2yy'' grid3 = [''R1C2'', ''R3C2'', ''R2C1'', ''R2C3'']"
proof -
  have "getAdjacentSeatIds ''xxR2C2yy'' grid3 = [''R1C2'', ''R3C2'', ''R2C1'', ''R2C3'']"
    by code_simp
  then show ?thesis by (simp add: isSeatIdForm_def)
qed

text \<open>
  C5, amended. \<^verbatim>\<open>getAdjacentSeatIds\<close> returns the empty list when the identifier holds
  no run R, digits, C, digits anywhere. The pattern is searched inside the identifier,
  not matched against the whole of it: when the identifier holds such a run the search
  succeeds, what it reads is such a run of the identifier, and an identifier of the form
  R, row, C, column is read as a whole. With \<open>r\<close> and \<open>c\<close> the numbers read (below
  \<open>2 ^ 53\<close>, where the numbers of the code are exact), the result is those of the
  four identifiers one row up, one row down, one column left and one column right that
  are the identifier of some seat of the map (whatever the seat's \<^verbatim>\<open>isUsable\<close>) and
  differ from the input; no diagonal neighbour is in the result. The function has no
  failing branch.
\<close>

theorem getAdjacentSeatIds_search:
  "(\<not> hasSeatPattern sId \<longrightarrow> getAdjacentSeatIds sId sm = [])
   \<and> (hasSeatPattern sId \<longrightarrow> matchRC sId \<noteq> None)
   \<and> (\<forall>m1 m2. matchRC sId = Some (m1, m2) \<longrightarrow>
         digitRun m1 \<and> digitRun m2
         \<and> (\<exists>pre post. sId = pre @ CHR ''R'' # m1 @ CHR ''C'' # m2 @ post))
   \<and> (\<forall>m1 m2. digitRun m1 \<and> digitRun m2 \<and> sId = CHR ''R'' # m1 @ CHR ''C'' # m2 \<longrightarrow>
         matchRC sId = Some (m1, m2))
   \<and> (\<forall>m1 m2. matchRC sId = Some (m1, m2) \<and> parseInt10 m1 < 2 ^ 53 \<and> parseInt10 m2 < 2 ^ 53 \<longrightarrow>
         getAdjacentSeatIds sId sm =
           filter (\<lambda>a. a \<in> seatId ` set sm \<and> a \<noteq> sId)
             [seatIdOf (int (parseInt10 m1) - 1) (int (parseInt10 m2)),
              seatIdOf (int (parseInt10 m1) + 1) (int (parseInt10 m2)),
              seatIdOf (int (parseInt10 m1)) (int (parseInt10 m2) - 1),
              seatIdOf (int (parseInt10 m1)) (int (parseInt10 m2) + 1)]
         \<and> (\<forall>dr\<in>{- 1, 1}. \<forall>dc\<in>{- 1, 1}.
              seatIdOf (int (parseInt10 m1) + dr) (int (parseInt10 m2) + dc)
                \<notin> set (getAdjacentSeatIds sId sm)))
   \<and> (\<forall>r c. sId = seatIdOf (int r) (int c) \<and> r < 2 ^ 53 \<and> c < 2 ^ 53 \<longrightarrow>
         getAdjacentSeatIds sId sm =
           filter (\<lambda>a. a \<in> seatId ` set sm)
             [seatIdOf (int r - 1) (int c), seatIdOf (int r + 1) (int c),
              seatIdOf (int r) (int c - 1), seatIdOf (int r) (int c + 1)])"
proof (intro conjI impI allI)
  assume "\<not> hasSeatPattern sId"
  then have "matchRC sId = None" by (simp add: matchRC_None_iff)
  then show "getAdjacentSeatIds sId sm = []" by (simp add: getAdjacentSeatIds_def)
next
  assume "hasSeatPattern sId"
  then show "matchRC sId \<noteq> None" by (rule matchRC_complete)
next
  fix m1 m2
  assume "matchRC sId = Some (m1, m2)"
  from matchRC_sound [OF this]
  show "digitRun m1" "digitRun m2"
    "\<exists>pre post. sId = pre @ CHR ''R'' # m1 @ CHR ''C'' # m2 @ post"
    by blast+
next
  fix m1 m2
  assume "digitRun m1 \<and> digitRun m2 \<and> sId = CHR ''R'' # m1 @ CHR ''C'' # m2"
  then show "matchRC sId = Some (m1, m2)" using matchRC_whole [of m1 m2] by blast
next
  fix r c :: nat
  assume "sId = seatIdOf (int r) (int c) \<and> r < 2 ^ 53 \<and> c < 2 ^ 53"
  then show "getAdjacentSeatIds sId sm =
           filter (\<lambda>a. a \<in> seatId ` set sm)
             [seatIdOf (int r - 1) (int c), seatIdOf (int r + 1) (int c),
              seatIdOf (int r) (int c - 1), seatIdOf (int r) (int c + 1)]"
    by (simp add: getAdjacentSeatIds_canonical)
next
  fix m1 m2
  assume h: "matchRC sId = Some (m1, m2) \<and> parseInt10 m1 < 2 ^ 53 \<and> parseInt10 m2 < 2 ^ 53"
  then show "getAdjacentSeatIds sId sm =
           filter (\<lambda>a. a \<in> seatId ` set sm \<and> a \<noteq> sId)
             [seatIdOf (int (parseInt10 m1) - 1) (int (parseInt10 m2)),
              seatIdOf (int (parseInt10 m1) + 1) (int (parseInt10 m2)),
              seatIdOf (int (parseInt10 m1)) (int (parseInt10 m2) - 1),
              seatIdOf (int (parseInt10 m1)) (int (parseInt10 m2) + 1)]"
    using getAdjacentSeatIds_filter [of sId m1 m2 sm] by (simp add: potentialAdjacents_def)
next
  fix m1 m2
  assume h: "matchRC sId = Some (m1, m2) \<and> parseInt10 m1 < 2 ^ 53 \<and> parseInt10 m2 < 2 ^ 53"
  have sub: "set (getAdjacentSeatIds sId sm)
               \<subseteq> set (potentialAdjacents (int (parseInt10 m1)) (int (parseInt10 m2)))"
    using h getAdjacentSeatIds_filter [of sId m1 m2 sm] by auto
  show "\<forall>dr\<in>{- 1, 1}. \<forall>dc\<in>{- 1, 1}.
          seatIdOf (int (parseInt10 m1) + dr) (int (parseInt10 m2) + dc)
            \<notin> set (getAdjacentSeatIds sId sm)"
  proof (intro ballI notI)
    fix dr dc :: int
    assume d: "dr \<in> {- 1, 1}" "dc \<in> {- 1, 1}"
    assume "seatIdOf (int (parseInt10 m1) + dr) (int (parseInt10 m2) + dc)
              \<in> set (getAdjacentSeatIds sId sm)"
    with sub have "seatIdOf (int (parseInt10 m1) + dr) (int (parseInt10 m2) + dc)
              \<in> set (potentialAdjacents (int (parseInt10 m1)) (int (parseInt10 m2)))"
      by blast
    with d show False
      by (auto simp: potentialAdjacents_def dest!: seatIdOf_inj)
  qed
qed

text \<open>
  The theorem on the 3 by 3 grid: at the centre seat, at xxR2C2yy, at an identifier
  without the pattern, and at the corner seat built from the template.
\<close>

theorem getAdjacentSeatIds_search_witness:
  "getAdjacentSeatIds ''R2C2'' grid3 = [''R1C2'', ''R3C2'', ''R2C1'', ''R2C3'']
   \<and> ''R1C1'' \<notin> set (getAdjacentSeatIds ''R2C2'' grid3)
   \<and> matchRC ''xxR2C2yy'' = Some (''2'', ''2'')
   \<and> getAdjacentSeatIds ''xxR2C2yy'' grid3 = [''R1C2'', ''R3C2'', ''R2C1'', ''R2C3'']
   \<and> \<not> hasSeatPattern ''seat-7''
   \<and> getAdjacentSeatIds ''seat-7'' grid3 = []
   \<and> getAdjacentSeatIds (seatIdOf (int 1) (int 1)) grid3 = [''R2C1'', ''R1C2'']"
proof -
  note spec = getAdjacentSeatIds_search
  have dr: "digitRun ''2''" by (simp add: digitRun_def isDigit_def)
  have form: "''R2C2'' = CHR ''R'' # ''2'' @ CHR ''C'' # ''2''" by simp
  from spec [of "''R2C2''" grid3] dr form
  have m: "matchRC ''R2C2'' = Some (''2'', ''2'')" by blast
  have p: "parseInt10 ''2'' = 2" by code_simp
  have ids: "seatIdOf 1 2 = ''R1C2''" "seatIdOf 3 2 = ''R3C2''" "seatIdOf 2 1 = ''R2C1''"
    "seatIdOf 2 3 = ''R2C3''" "seatIdOf 1 1 = ''R1C1''" "seatIdOf 0 1 = ''R0C1''"
    "seatIdOf 1 0 = ''R1C0''"
    by code_simp+
  have g: "seatId ` set grid3
             = {''R1C1'', ''R1C2'', ''R1C3'', ''R2C1'', ''R2C2'', ''R2C3'', ''R3C1'', ''R3C2'', ''R3C3''}"
    by (simp add: grid3_def mkSeat_def)
  have hyp: "matchRC ''R2C2'' = Some (''2'', ''2'') \<and> parseInt10 ''2'' < 2 ^ 53 \<and> parseInt10 ''2'' < 2 ^ 53"
    using m p by simp
  from spec [of "''R2C2''" grid3] hyp
  have ab: "getAdjacentSeatIds ''R2C2'' grid3 =
           filter (\<lambda>a. a \<in> seatId ` set grid3 \<and> a \<noteq> ''R2C2'')
             [seatIdOf (int (parseInt10 ''2'') - 1) (int (parseInt10 ''2'')),
              seatIdOf (int (parseInt10 ''2'') + 1) (int (parseInt10 ''2'')),
              seatIdOf (int (parseInt10 ''2'')) (int (parseInt10 ''2'') - 1),
              seatIdOf (int (parseInt10 ''2'')) (int (parseInt10 ''2'') + 1)]
         \<and> (\<forall>dr\<in>{- 1, 1}. \<forall>dc\<in>{- 1, 1}.
              seatIdOf (int (parseInt10 ''2'') + dr) (int (parseInt10 ''2'') + dc)
                \<notin> set (getAdjacentSeatIds ''R2C2'' grid3))"
    by blast
  from ab have a: "getAdjacentSeatIds ''R2C2'' grid3 = [''R1C2'', ''R3C2'', ''R2C1'', ''R2C3'']"
    by (simp add: p ids g)
  from ab have "seatIdOf (int (parseInt10 ''2'') + (- 1)) (int (parseInt10 ''2'') + (- 1))
                \<notin> set (getAdjacentSeatIds ''R2C2'' grid3)"
    by blast
  then have c: "''R1C1'' \<notin> set (getAdjacentSeatIds ''R2C2'' grid3)"
    by (simp add: p ids)
  have mx: "matchRC ''xxR2C2yy'' = Some (''2'', ''2'')" by code_simp
  from spec [of "''xxR2C2yy''" grid3] mx p
  have "getAdjacentSeatIds ''xxR2C2yy'' grid3 =
           filter (\<lambda>a. a \<in> seatId ` set grid3 \<and> a \<noteq> ''xxR2C2yy'')
             [seatIdOf (int (parseInt10 ''2'') - 1) (int (parseInt10 ''2'')),
              seatIdOf (int (parseInt10 ''2'') + 1) (int (parseInt10 ''2'')),
              seatIdOf (int (parseInt10 ''2'')) (int (parseInt10 ''2'') - 1),
              seatIdOf (int (parseInt10 ''2'')) (int (parseInt10 ''2'') + 1)]"
    by simp
  then have x: "getAdjacentSeatIds ''xxR2C2yy'' grid3 = [''R1C2'', ''R3C2'', ''R2C1'', ''R2C3'']"
    by (simp add: p ids g)
  have n: "matchRC ''seat-7'' = None" by code_simp
  from spec [of "''seat-7''" grid3] n
  have np: "\<not> hasSeatPattern ''seat-7''" by blast
  from spec [of "''seat-7''" grid3] np
  have d: "getAdjacentSeatIds ''seat-7'' grid3 = []" by blast
  have small: "(1::nat) < 2 ^ 53" by simp
  from spec [of "seatIdOf (int 1) (int 1)" grid3] small
  have "getAdjacentSeatIds (seatIdOf (int 1) (int 1)) grid3 =
          filter (\<lambda>a. a \<in> seatId ` set grid3)
            [seatIdOf (int 1 - 1) (int 1), seatIdOf (int 1 + 1) (int 1),
             seatIdOf (int 1) (int 1 - 1), seatIdOf (int 1) (int 1 + 1)]"
    by blast
  then have e: "getAdjacentSeatIds (seatIdOf (int 1) (int 1)) grid3 = [''R2C1'', ''R1C2'']"
    by (simp add: ids g)
  show ?thesis
    by (intro conjI) (rule a c mx x np d e)+
qed

section \<open>Properties of the constraint checker\<close>

lemma relationsLoop_step:
  "relationsLoop sid adj allS (rel # rels) =
     (if involves rel sid then
        (case seatedPartnerSeat allS rel sid of
           None \<Rightarrow> relationsLoop sid adj allS rels
         | Some q \<Rightarrow>
             (case rel_type rel of
                CO_SEAT \<Rightarrow> q \<in> set adj \<and> relationsLoop sid adj allS rels
              | NO_CO_SEAT \<Rightarrow> q \<notin> set adj \<and> relationsLoop sid adj allS rels))
      else relationsLoop sid adj allS rels)"
proof (cases "involves rel sid")
  case False
  then show ?thesis by (simp add: involves_def)
next
  case True
  show ?thesis
  proof (cases "find (\<lambda>s. student_id s = partnerOf rel sid) allS")
    case None
    with True show ?thesis
      by (simp add: involves_def seatedPartnerSeat_def partnerOf_def)
  next
    case (Some p)
    show ?thesis
    proof (cases "assignedSeatId p")
      case None
      with Some True show ?thesis
        by (simp add: involves_def seatedPartnerSeat_def partnerOf_def truthy_def)
    next
      case (Some q)
      with \<open>find (\<lambda>s. student_id s = partnerOf rel sid) allS = Some p\<close> True show ?thesis
        by (cases "rel_type rel")
           (simp_all add: involves_def seatedPartnerSeat_def partnerOf_def truthy_def)
    qed
  qed
qed

lemma relationsLoop_iff:
  "relationsLoop sid adj allS rels \<longleftrightarrow>
     (\<forall>rel\<in>set rels. involves rel sid \<longrightarrow>
        (\<forall>q. seatedPartnerSeat allS rel sid = Some q \<longrightarrow>
           (rel_type rel = CO_SEAT \<longrightarrow> q \<in> set adj)
           \<and> (rel_type rel = NO_CO_SEAT \<longrightarrow> q \<notin> set adj)))"
proof (induction rels)
  case Nil
  show ?case by simp
next
  case (Cons rel rels)
  show ?case
    unfolding relationsLoop_step
    using Cons by (cases "rel_type rel") (auto split: option.splits)
qed

text \<open>
  C1. For a student that is present, the check of a target seat succeeds exactly when
  every relation that involves the student and whose partner is seated is respected: a
  \<open>CO_SEAT\<close> relation needs the partner's seat in the adjacency list of the target
  seat, a \<open>NO_CO_SEAT\<close> relation needs it outside. Relations whose partner has no
  seat constrain nothing, and a student that no relation involves passes at every seat.
\<close>

theorem checkRelationConstraints_spec:
  "(checkRelationConstraints targetSeatId (Some st) sm allS rels \<longleftrightarrow>
      (\<forall>rel\<in>set rels. involves rel (student_id st) \<longrightarrow>
         (\<forall>q. seatedPartnerSeat allS rel (student_id st) = Some q \<longrightarrow>
            (rel_type rel = CO_SEAT \<longrightarrow> q \<in> set (getAdjacentSeatIds targetSeatId sm))
            \<and> (rel_type rel = NO_CO_SEAT \<longrightarrow> q \<notin> set (getAdjacentSeatIds targetSeatId sm)))))
   \<and> ((\<forall>rel\<in>set rels. involves rel (student_id st) \<longrightarrow>
          seatedPartnerSeat allS rel (student_id st) = None)
        \<longrightarrow> checkRelationConstraints targetSeatId (Some st) sm allS rels)
   \<and> ((\<forall>rel\<in>set rels. \<not> involves rel (student_id st))
        \<longrightarrow> checkRelationConstraints targetSeatId (Some st) sm allS rels)"
  by (simp add: checkRelationConstraints_def relationsLoop_iff)

text \<open>
  Scenarios A and B: on the 3 by 3 grid with S1 seated at R2C2, S2 passes at R1C2 and
  fails at R1C1 under \<open>CO_SEAT\<close>, and the other way round under \<open>NO_CO_SEAT\<close>.
\<close>

theorem checkRelationConstraints_spec_witness:
  "checkRelationConstraints ''R1C2'' (Some (mkStudent ''S2'' None))
     (assignSeat ''R2C2'' ''S1'' grid3)
     [mkStudent ''S1'' (Some ''R2C2''), mkStudent ''S2'' None]
     [mkRelation ''S1'' ''S2'' CO_SEAT]
   \<and> \<not> checkRelationConstraints ''R1C1'' (Some (mkStudent ''S2'' None))
     (assignSeat ''R2C2'' ''S1'' grid3)
     [mkStudent ''S1'' (Some ''R2C2''), mkStudent ''S2'' None]
     [mkRelation ''S1'' ''S2'' CO_SEAT]
   \<and> \<not> checkRelationConstraints ''R1C2'' (Some (mkStudent ''S2'' None))
     (assignSeat ''R2C2'' ''S1'' grid3)
     [mkStudent ''S1'' (Some ''R2C2''), mkStudent ''S2'' None]
     [mkRelation ''S1'' ''S2'' NO_CO_SEAT]
   \<and> checkRelationConstraints ''R1C1'' (Some (mkStudent ''S2'' None))
     (assignSeat ''R2C2'' ''S1'' grid3)
     [mkStudent ''S1'' (Some ''R2C2''), mkStudent ''S2'' None]
     [mkRelation ''S1'' ''S2'' NO_CO_SEAT]"
proof -
  let ?sm = "assignSeat ''R2C2'' ''S1'' grid3"
  let ?ss = "[mkStudent ''S1'' (Some ''R2C2''), mkStudent ''S2'' None]"
  let ?s2 = "mkStudent ''S2'' None"
  have adj12: "getAdjacentSeatIds ''R1C2'' ?sm = [''R2C2'', ''R1C1'', ''R1C3'']" by code_simp
  have adj11: "getAdjacentSeatIds ''R1C1'' ?sm = [''R2C1'', ''R1C2'']" by code_simp
  have sid: "student_id ?s2 = ''S2''" by (simp add: mkStudent_def)
  have inv: "involves (mkRelation ''S1'' ''S2'' t) ''S2''" for t
    by (simp add: involves_def mkRelation_def)
  have ps: "seatedPartnerSeat ?ss (mkRelation ''S1'' ''S2'' t) ''S2'' = Some ''R2C2''" for t
    by (simp add: seatedPartnerSeat_def partnerOf_def mkRelation_def mkStudent_def truthy_def)
  have ty: "rel_type (mkRelation ''S1'' ''S2'' t) = t" for t by (simp add: mkRelation_def)
  have a: "checkRelationConstraints ''R1C2'' (Some ?s2) ?sm ?ss [mkRelation ''S1'' ''S2'' CO_SEAT]"
    using checkRelationConstraints_spec [of "''R1C2''" ?s2 ?sm ?ss "[mkRelation ''S1'' ''S2'' CO_SEAT]"]
    by (simp add: adj12 sid inv ps ty)
  have b: "\<not> checkRelationConstraints ''R1C1'' (Some ?s2) ?sm ?ss [mkRelation ''S1'' ''S2'' CO_SEAT]"
    using checkRelationConstraints_spec [of "''R1C1''" ?s2 ?sm ?ss "[mkRelation ''S1'' ''S2'' CO_SEAT]"]
    by (simp add: adj11 sid inv ps ty)
  have c: "\<not> checkRelationConstraints ''R1C2'' (Some ?s2) ?sm ?ss [mkRelation ''S1'' ''S2'' NO_CO_SEAT]"
    using checkRelationConstraints_spec [of "''R1C2''" ?s2 ?sm ?ss "[mkRelation ''S1'' ''S2'' NO_CO_SEAT]"]
    by (simp add: adj12 sid inv ps ty)
  have d: "checkRelationConstraints ''R1C1'' (Some ?s2) ?sm ?ss [mkRelation ''S1'' ''S2'' NO_CO_SEAT]"
    using checkRelationConstraints_spec [of "''R1C1''" ?s2 ?sm ?ss "[mkRelation ''S1'' ''S2'' NO_CO_SEAT]"]
    by (simp add: adj11 sid inv ps ty)
  show ?thesis by (intro conjI) (rule a b c d)+
qed

section \<open>Properties of the single draw\<close>

lemma find_append_cases:
  "find P (xs @ ys) = (case find P xs of None \<Rightarrow> find P ys | Some x \<Rightarrow> Some x)"
  by (induction xs) auto

lemma find_SomeD: "find P xs = Some x \<Longrightarrow> P x \<and> x \<in> set xs"
  by (induction xs) (auto split: if_splits)

lemma find_None_subset:
  "find P xs = None \<Longrightarrow> set ys \<subseteq> set xs \<Longrightarrow> find P ys = None"
  by (auto simp: find_None_iff)

lemma fallbackLoop_valid:
  "isValidFinalSeat ch \<Longrightarrow> fallbackLoop chk sh k ch = ch"
  by (subst fallbackLoop.simps) simp

lemma fallbackLoop_empty:
  "fallbackLoop chk [] k ch = ch"
proof (induction chk "[] :: SeatMapData list" k ch rule: fallbackLoop.induct)
  case (1 chk attempts ch)
  show ?case
  proof (cases "\<not> isValidFinalSeat ch \<and> attempts < 100")
    case True
    with 1 show ?thesis by (subst fallbackLoop.simps) simp
  next
    case False
    then show ?thesis by (subst fallbackLoop.simps) auto
  qed
qed

text \<open>
  The loop from attempt \<open>k\<close> on finds the first acceptable seat among the seats at the
  indices \<open>k mod n\<close>, \<open>(k + 1) mod n\<close>, up to attempt 99.
\<close>

lemma fallbackLoop_find:
  assumes "sh \<noteq> []" "\<not> isValidFinalSeat ch"
  shows "fallbackLoop chk sh k ch =
     (case find (\<lambda>p. seatId p \<noteq> [] \<and> chk (seatId p))
             (map (\<lambda>i. sh ! (i mod length sh)) [k..<100]) of
        Some p \<Rightarrow> ch\<lparr>finalChosenSeatId := Some (seatId p), isValidFinalSeat := True\<rparr>
      | None \<Rightarrow> ch)"
proof -
  have "100 - k = n \<Longrightarrow> ?thesis" for n
  proof (induction n arbitrary: k)
    case 0
    then have "\<not> k < 100" by simp
    then show ?case by (subst fallbackLoop.simps) simp
  next
    case (Suc n)
    then have lt: "k < 100" and rest: "100 - Suc k = n" by simp_all
    from lt have up: "[k..<100] = k # [Suc k..<100]" by (simp add: upt_conv_Cons)
    let ?p = "sh ! (k mod length sh)"
    show ?case
    proof (cases "seatId ?p \<noteq> [] \<and> chk (seatId ?p)")
      case True
      with lt assms show ?thesis
        by (subst fallbackLoop.simps) (simp add: up fallbackLoop_valid)
    next
      case False
      have step: "fallbackLoop chk sh k ch = fallbackLoop chk sh (Suc k) ch"
        using False lt assms by (subst fallbackLoop.simps) auto
      from False show ?thesis
        unfolding step Suc.IH [OF rest] by (auto simp: up)
    qed
  qed
  then show ?thesis by simp
qed

lemma wrapped_indices_find:
  assumes "sh \<noteq> []"
  shows "find P (map (\<lambda>i. sh ! (i mod length sh)) [0..<100]) = find P (take 100 sh)"
proof (cases "100 \<le> length sh")
  case True
  have "map (\<lambda>i. sh ! (i mod length sh)) [0..<100] = map (\<lambda>i. sh ! i) [0..<100]"
    using True by (intro map_cong) auto
  also have "\<dots> = take 100 sh"
    using True by (intro nth_equalityI) auto
  finally show ?thesis by simp
next
  case False
  then have n: "length sh < 100" by simp
  have split: "[0..<100] = [0..<length sh] @ [length sh..<100]"
    using n by (metis le_add_diff_inverse less_imp_le_nat upt_add_eq_append zero_le)
  have first: "map (\<lambda>i. sh ! (i mod length sh)) [0..<length sh] = sh"
    by (intro nth_equalityI) auto
  have rest: "set (map (\<lambda>i. sh ! (i mod length sh)) [length sh..<100]) \<subseteq> set sh"
    using assms by auto
  have "find P (map (\<lambda>i. sh ! (i mod length sh)) [0..<100])
          = find P (sh @ map (\<lambda>i. sh ! (i mod length sh)) [length sh..<100])"
    by (subst split) (simp add: first)
  also have "\<dots> = find P sh"
    using rest by (auto simp: find_append_cases find_None_subset split: option.splits)
  finally show ?thesis using n by simp
qed

lemma fallbackLoop_take:
  assumes "\<not> isValidFinalSeat ch"
  shows "fallbackLoop chk sh 0 ch =
     (case find (\<lambda>p. seatId p \<noteq> [] \<and> chk (seatId p)) (take 100 sh) of
        Some p \<Rightarrow> ch\<lparr>finalChosenSeatId := Some (seatId p), isValidFinalSeat := True\<rparr>
      | None \<Rightarrow> ch)"
proof (cases "sh = []")
  case True
  then show ?thesis by (simp add: fallbackLoop_empty)
next
  case False
  with assms show ?thesis
    by (simp add: fallbackLoop_find wrapped_indices_find)
qed


lemma resolveFixedOrManual_chosen:
  "isValidFinalSeat (resolveFixedOrManual st sel)
   \<Longrightarrow> finalChosenSeatId (resolveFixedOrManual st sel) \<noteq> None"
  by (auto simp: resolveFixedOrManual_def Let_def split: option.splits if_splits)

lemma tryHighlighted_chosen:
  "(isValidFinalSeat ch \<longrightarrow> finalChosenSeatId ch \<noteq> None)
   \<Longrightarrow> isValidFinalSeat (tryHighlighted st sel ch)
   \<Longrightarrow> finalChosenSeatId (tryHighlighted st sel ch) \<noteq> None"
  by (auto simp: tryHighlighted_def split: option.splits if_splits)

lemma tryHighlighted_message [simp]:
  "message (tryHighlighted st sel ch) = message ch"
  by (simp add: tryHighlighted_def split: option.splits)

text \<open>
  A seat that steps 1 to 3 have chosen is committed, with the message of steps 1 and 2.
\<close>

lemma stopRoulette_chosen:
  assumes "isRunning (rouletteState st)" "selectedStudentForAssignment st = Some sel"
    and "isValidFinalSeat (tryHighlighted st sel (resolveFixedOrManual st sel))"
  shows "\<exists>chosen. finalChosenSeatId (tryHighlighted st sel (resolveFixedOrManual st sel)) = Some chosen
           \<and> stopRoulette sh st = commitStop sel chosen (message (resolveFixedOrManual st sel)) st"
proof -
  from assms(3) tryHighlighted_chosen [of "resolveFixedOrManual st sel" st sel]
    resolveFixedOrManual_chosen [of st sel]
  obtain chosen where c: "finalChosenSeatId (tryHighlighted st sel (resolveFixedOrManual st sel)) = Some chosen"
    by blast
  with assms show ?thesis by (simp add: stopRoulette_def Let_def)
qed

text \<open>
  When steps 1 to 3 have chosen no seat, the outcome is decided by the first acceptable
  seat among the first 100 of the shuffled list.
\<close>

lemma stopRoulette_fallback:
  assumes "isRunning (rouletteState st)" "selectedStudentForAssignment st = Some sel"
    and "\<not> isValidFinalSeat (tryHighlighted st sel (resolveFixedOrManual st sel))"
  shows "stopRoulette sh st =
     (case find (\<lambda>p. seatId p \<noteq> []
                    \<and> checkRelationConstraints (seatId p) (Some sel) (seatMap st) (students st)
                        (relationConfig st)) (take 100 sh) of
        Some p \<Rightarrow> commitStop sel (seatId p) (message (resolveFixedOrManual st sel)) st
      | None \<Rightarrow> failStop [NoSeatSatisfyingRelations] st)"
  using assms
  by (auto simp: stopRoulette_def Let_def fallbackLoop_take truthy_def
        split: option.splits dest: find_SomeD)

text \<open>
  C6. A running draw for a student without a fixed assignment, with no valid manual
  selection and no admissible highlighted seat, takes the shuffled list of available
  seats and looks at its first \<open>min 100 n\<close> seats in order. The first admissible one
  is committed: the seats with its identifier take the student as holder, the student
  becomes assigned to it, the pair is appended to the history, the roulette stops on
  that seat and the result is shown; the message is the one a rejected manual selection
  left, if any. If there is none, seats, students and history stay as they are and the
  message says that no seat satisfies the relations. Seat identifiers are not empty.
\<close>

theorem stopRoulette_fallback_commits:
  assumes "isRunning (rouletteState st)"
    and "selectedStudentForAssignment st = Some sel"
    and "find (\<lambda>fsa. fixed_studentId fsa = student_id sel) (fixedSeatAssignments st) = None"
    and "\<forall>m. manuallySelectedSeatIdForRoulette st = Some m \<and> m \<noteq> []
              \<and> find (\<lambda>seat. seatId seat = m) (availableSeats st) \<noteq> None
            \<longrightarrow> \<not> checkRelationConstraints m (Some sel) (seatMap st) (students st)
                    (relationConfig st)"
    and "\<forall>h. currentSelectedSeatId (rouletteState st) = Some h \<and> h \<noteq> []
              \<and> find (\<lambda>seat. seatId seat = h) (availableSeats st) \<noteq> None
            \<longrightarrow> \<not> checkRelationConstraints h (Some sel) (seatMap st) (students st)
                    (relationConfig st)"
    and "mset shuffled = mset (availableSeats st)"
    and "\<forall>seat\<in>set (seatMap st). seatId seat \<noteq> []"
  shows "stopRoulette shuffled st =
     (case find (\<lambda>p. checkRelationConstraints (seatId p) (Some sel) (seatMap st) (students st)
                        (relationConfig st))
             (take (min 100 (length shuffled)) shuffled) of
        Some p \<Rightarrow>
          st\<lparr>seatMap :=
               map (\<lambda>seat. if seatId seat = seatId p
                            then seat\<lparr>assignedStudentId := Some (student_id sel)\<rparr> else seat)
                 (seatMap st),
             students :=
               map (\<lambda>s. if student_id s = student_id sel
                         then s\<lparr>isAssigned := True, assignedSeatId := Some (seatId p)\<rparr> else s)
                 (students st),
             rouletteState := (rouletteState st)\<lparr>isRunning := False, isStopped := True,
                                currentSelectedSeatId := Some (seatId p),
                                currentAssigningStudent := Some sel,
                                winningHistory := winningHistory (rouletteState st)
                                  @ [\<lparr>h_studentId = student_id sel, h_seatId = seatId p\<rparr>]\<rparr>,
             manuallySelectedSeatIdForRoulette := None,
             localErrorMessage :=
               (case manuallySelectedSeatIdForRoulette st of
                  None \<Rightarrow> None
                | Some m \<Rightarrow>
                    if m = [] then None
                    else Some [if find (\<lambda>seat. seatId seat = m) (availableSeats st) = None
                               then ManualSeatUnavailable m
                               else ManualSeatViolatesRelations m]),
             openResultModal := True\<rparr>
      | None \<Rightarrow>
          st\<lparr>localErrorMessage := Some [NoSeatSatisfyingRelations],
             rouletteState := (rouletteState st)\<lparr>isRunning := False, isStopped := True,
                                currentSelectedSeatId := None,
                                currentAssigningStudent := None\<rparr>,
             manuallySelectedSeatIdForRoulette := None\<rparr>)"
proof -
  have r: "\<not> isValidFinalSeat (resolveFixedOrManual st sel)"
    using assms(3,4)
    by (auto simp: resolveFixedOrManual_def Let_def truthy_def split: option.splits)
  have msg: "message (resolveFixedOrManual st sel) =
               (case manuallySelectedSeatIdForRoulette st of
                  None \<Rightarrow> None
                | Some m \<Rightarrow>
                    if m = [] then None
                    else Some [if find (\<lambda>seat. seatId seat = m) (availableSeats st) = None
                               then ManualSeatUnavailable m
                               else ManualSeatViolatesRelations m])"
    using assms(3,4)
    by (auto simp: resolveFixedOrManual_def Let_def truthy_def split: option.splits)
  have h: "\<not> isValidFinalSeat (tryHighlighted st sel (resolveFixedOrManual st sel))"
    using r assms(5)
    by (auto simp: tryHighlighted_def truthy_def split: option.splits)
  have "set shuffled = set (availableSeats st)"
    using assms(6) by (metis set_mset_mset)
  then have ids: "\<forall>p\<in>set (take 100 shuffled). seatId p \<noteq> []"
    using assms(7) by (auto simp: availableSeats_def dest: in_set_takeD)
  have same: "find (\<lambda>p. seatId p \<noteq> [] \<and> checkRelationConstraints (seatId p) (Some sel)
                     (seatMap st) (students st) (relationConfig st)) (take 100 shuffled)
            = find (\<lambda>p. checkRelationConstraints (seatId p) (Some sel)
                     (seatMap st) (students st) (relationConfig st)) (take 100 shuffled)"
    using ids by (intro find_cong) auto
  have tk: "take (min 100 (length shuffled)) shuffled = take 100 shuffled"
    by (simp add: min_def)
  note fb = stopRoulette_fallback [OF assms(1,2) h, of shuffled, unfolded same msg]
  show ?thesis
  proof (cases "find (\<lambda>p. checkRelationConstraints (seatId p) (Some sel)
                     (seatMap st) (students st) (relationConfig st)) (take 100 shuffled)")
    case None
    with fb show ?thesis unfolding tk by (simp add: failStop_def)
  next
    case (Some p)
    with fb have "stopRoulette shuffled st
        = commitStop sel (seatId p)
            (case manuallySelectedSeatIdForRoulette st of
                  None \<Rightarrow> None
                | Some m \<Rightarrow>
                    if m = [] then None
                    else Some [if find (\<lambda>seat. seatId seat = m) (availableSeats st) = None
                               then ManualSeatUnavailable m
                               else ManualSeatViolatesRelations m]) st"
      by simp
    with Some show ?thesis
      unfolding tk by (simp add: commitStop_def assignSeat_def assignStudent_def)
  qed
qed

text \<open>
  The theorem at \<open>fallbackState\<close>: with the shuffle R1C2, R1C3 the seat R1C3 goes to
  S1 in seat map, students and history; with R1C2 as the only free seat nothing is
  committed.
\<close>

theorem stopRoulette_fallback_commits_witness:
  "students (stopRoulette [mkSeat ''R1C2'' True None, mkSeat ''R1C3'' True None] fallbackState)
     = [mkStudent ''S1'' (Some ''R1C3''), mkStudent ''S2'' (Some ''R1C1'')]
   \<and> seatMap (stopRoulette [mkSeat ''R1C2'' True None, mkSeat ''R1C3'' True None] fallbackState)
     = [mkSeat ''R1C1'' True (Some ''S2''), mkSeat ''R1C2'' True None,
        mkSeat ''R1C3'' True (Some ''S1'')]
   \<and> winningHistory (rouletteState
        (stopRoulette [mkSeat ''R1C2'' True None, mkSeat ''R1C3'' True None] fallbackState))
     = [\<lparr>h_studentId = ''S1'', h_seatId = ''R1C3''\<rparr>]
   \<and> localErrorMessage
        (stopRoulette [mkSeat ''R1C2'' True None, mkSeat ''R1C3'' True None] fallbackState)
     = None
   \<and> stopRoulette [mkSeat ''R1C2'' True None]
        (fallbackState\<lparr>seatMap := [mkSeat ''R1C1'' True (Some ''S2''), mkSeat ''R1C2'' True None]\<rparr>)
     = (fallbackState\<lparr>seatMap := [mkSeat ''R1C1'' True (Some ''S2''), mkSeat ''R1C2'' True None]\<rparr>)
         \<lparr>localErrorMessage := Some [NoSeatSatisfyingRelations],
          rouletteState := (rouletteState fallbackState)\<lparr>isRunning := False, isStopped := True,
                             currentSelectedSeatId := None, currentAssigningStudent := None\<rparr>,
          manuallySelectedSeatIdForRoulette := None\<rparr>"
proof -
  let ?sel = "mkStudent ''S1'' None"
  let ?sh = "[mkSeat ''R1C2'' True None, mkSeat ''R1C3'' True None]"
  let ?one = "[mkSeat ''R1C2'' True None]"
  let ?st2 = "fallbackState\<lparr>seatMap := [mkSeat ''R1C1'' True (Some ''S2''), mkSeat ''R1C2'' True None]\<rparr>"
  have run: "isRunning (rouletteState fallbackState)" "isRunning (rouletteState ?st2)"
    by (simp_all add: fallbackState_def runningState_def)
  have sel: "selectedStudentForAssignment fallbackState = Some ?sel"
    "selectedStudentForAssignment ?st2 = Some ?sel"
    by (simp_all add: fallbackState_def runningState_def)
  have nofix: "find (\<lambda>fsa. fixed_studentId fsa = student_id ?sel) (fixedSeatAssignments fallbackState) = None"
    "find (\<lambda>fsa. fixed_studentId fsa = student_id ?sel) (fixedSeatAssignments ?st2) = None"
    by (simp_all add: fallbackState_def runningState_def)
  have man: "manuallySelectedSeatIdForRoulette fallbackState = None"
    "manuallySelectedSeatIdForRoulette ?st2 = None"
    by (simp_all add: fallbackState_def runningState_def)
  have hl: "currentSelectedSeatId (rouletteState fallbackState) = Some ''R1C2''"
    "currentSelectedSeatId (rouletteState ?st2) = Some ''R1C2''"
    by (simp_all add: fallbackState_def runningState_def)
  have bad: "\<not> checkRelationConstraints ''R1C2'' (Some ?sel) (seatMap fallbackState)
                (students fallbackState) (relationConfig fallbackState)"
    "\<not> checkRelationConstraints ''R1C2'' (Some ?sel) (seatMap ?st2)
                (students ?st2) (relationConfig ?st2)"
    by code_simp+
  have av: "mset ?sh = mset (availableSeats fallbackState)"
    "mset ?one = mset (availableSeats ?st2)"
    by code_simp+
  have ne: "\<forall>seat\<in>set (seatMap fallbackState). seatId seat \<noteq> []"
    "\<forall>seat\<in>set (seatMap ?st2). seatId seat \<noteq> []"
    by (simp_all add: fallbackState_def runningState_def mkSeat_def)
  have m1: "\<forall>m. manuallySelectedSeatIdForRoulette fallbackState = Some m \<and> m \<noteq> []
              \<and> find (\<lambda>seat. seatId seat = m) (availableSeats fallbackState) \<noteq> None
            \<longrightarrow> \<not> checkRelationConstraints m (Some ?sel) (seatMap fallbackState)
                    (students fallbackState) (relationConfig fallbackState)"
    and m2: "\<forall>m. manuallySelectedSeatIdForRoulette ?st2 = Some m \<and> m \<noteq> []
              \<and> find (\<lambda>seat. seatId seat = m) (availableSeats ?st2) \<noteq> None
            \<longrightarrow> \<not> checkRelationConstraints m (Some ?sel) (seatMap ?st2)
                    (students ?st2) (relationConfig ?st2)"
    using man by simp_all
  have h1: "\<forall>h. currentSelectedSeatId (rouletteState fallbackState) = Some h \<and> h \<noteq> []
              \<and> find (\<lambda>seat. seatId seat = h) (availableSeats fallbackState) \<noteq> None
            \<longrightarrow> \<not> checkRelationConstraints h (Some ?sel) (seatMap fallbackState)
                    (students fallbackState) (relationConfig fallbackState)"
    using hl(1) bad(1) by simp
  have h2: "\<forall>h. currentSelectedSeatId (rouletteState ?st2) = Some h \<and> h \<noteq> []
              \<and> find (\<lambda>seat. seatId seat = h) (availableSeats ?st2) \<noteq> None
            \<longrightarrow> \<not> checkRelationConstraints h (Some ?sel) (seatMap ?st2)
                    (students ?st2) (relationConfig ?st2)"
    using hl(2) bad(2) by simp
  have f1: "find (\<lambda>p. checkRelationConstraints (seatId p) (Some ?sel) (seatMap fallbackState)
                     (students fallbackState) (relationConfig fallbackState))
               (take (min 100 (length ?sh)) ?sh) = Some (mkSeat ''R1C3'' True None)"
    by code_simp
  have f2: "find (\<lambda>p. checkRelationConstraints (seatId p) (Some ?sel) (seatMap ?st2)
                     (students ?st2) (relationConfig ?st2))
               (take (min 100 (length ?one)) ?one) = None"
    by code_simp
  have before: "students fallbackState = [mkStudent ''S1'' None, mkStudent ''S2'' (Some ''R1C1'')]"
    "seatMap fallbackState = [mkSeat ''R1C1'' True (Some ''S2''), mkSeat ''R1C2'' True None,
        mkSeat ''R1C3'' True None]"
    "winningHistory (rouletteState fallbackState) = []"
    by (simp_all add: fallbackState_def runningState_def)
  note t1 = stopRoulette_fallback_commits [OF run(1) sel(1) nofix(1) m1 h1 av(1) ne(1),
      unfolded f1 man(1) option.case]
  have a1: "students (stopRoulette ?sh fallbackState)
             = [mkStudent ''S1'' (Some ''R1C3''), mkStudent ''S2'' (Some ''R1C1'')]"
    unfolding t1 by (simp add: before mkStudent_def mkSeat_def)
  have a2: "seatMap (stopRoulette ?sh fallbackState)
         = [mkSeat ''R1C1'' True (Some ''S2''), mkSeat ''R1C2'' True None,
            mkSeat ''R1C3'' True (Some ''S1'')]"
    unfolding t1 by (simp add: before mkStudent_def mkSeat_def)
  have a3: "winningHistory (rouletteState (stopRoulette ?sh fallbackState))
         = [\<lparr>h_studentId = ''S1'', h_seatId = ''R1C3''\<rparr>]"
    unfolding t1 by (simp add: before mkStudent_def mkSeat_def)
  have a4: "localErrorMessage (stopRoulette ?sh fallbackState) = None"
    unfolding t1 by simp
  note t2 = stopRoulette_fallback_commits [OF run(2) sel(2) nofix(2) m2 h2 av(2) ne(2),
      unfolded f2 option.case]
  have b: "stopRoulette ?one ?st2
     = ?st2\<lparr>localErrorMessage := Some [NoSeatSatisfyingRelations],
          rouletteState := (rouletteState fallbackState)\<lparr>isRunning := False, isStopped := True,
                             currentSelectedSeatId := None, currentAssigningStudent := None\<rparr>,
          manuallySelectedSeatIdForRoulette := None\<rparr>"
    unfolding t2 by simp
  show ?thesis by (intro conjI) (rule a1 a2 a3 a4 b)+
qed

text \<open>
  C10. When the student of a running draw has a fixed assignment whose seat is usable
  and not held by another student, that seat is committed whatever the relations are:
  for every relation list the seats with the fixed identifier take the student as
  holder, the student becomes assigned to the fixed seat, the pair is appended to the
  history and no message is set, so the constraint check has no part in the outcome.
  At \<open>fixedViolatingState\<close> S1 must not sit next to S2, who holds R1C1; the draw puts
  S1 on its fixed seat R1C2, which is adjacent to R1C1 and fails the constraint check
  before and after the commit.
\<close>

theorem stopRoulette_fixed_seat_committed_unchecked:
  "(isRunning (rouletteState st) \<and> selectedStudentForAssignment st = Some sel
     \<and> find (\<lambda>fsa. fixed_studentId fsa = student_id sel) (fixedSeatAssignments st) = Some fa
     \<and> find (\<lambda>seat. seatId seat = fixed_seatId fa) (seatMap st) = Some target
     \<and> isUsable target
     \<and> (truthy (assignedStudentId target) \<longrightarrow> assignedStudentId target = Some (student_id sel))
    \<longrightarrow> (\<forall>rels. stopRoulette sh (st\<lparr>relationConfig := rels\<rparr>)
            = st\<lparr>relationConfig := rels,
                 seatMap :=
                   map (\<lambda>seat. if seatId seat = fixed_seatId fa
                                then seat\<lparr>assignedStudentId := Some (student_id sel)\<rparr> else seat)
                     (seatMap st),
                 students :=
                   map (\<lambda>s. if student_id s = student_id sel
                             then s\<lparr>isAssigned := True, assignedSeatId := Some (fixed_seatId fa)\<rparr>
                             else s)
                     (students st),
                 rouletteState := (rouletteState st)\<lparr>isRunning := False, isStopped := True,
                                    currentSelectedSeatId := Some (fixed_seatId fa),
                                    currentAssigningStudent := Some sel,
                                    winningHistory := winningHistory (rouletteState st)
                                      @ [\<lparr>h_studentId = student_id sel,
                                           h_seatId = fixed_seatId fa\<rparr>]\<rparr>,
                 manuallySelectedSeatIdForRoulette := None,
                 localErrorMessage := None,
                 openResultModal := True\<rparr>))
   \<and> relationConfig fixedViolatingState = [mkRelation ''S1'' ''S2'' NO_CO_SEAT]
   \<and> fixedSeatAssignments fixedViolatingState = [\<lparr>fixed_studentId = ''S1'', fixed_seatId = ''R1C2''\<rparr>]
   \<and> students fixedViolatingState = [mkStudent ''S1'' None, mkStudent ''S2'' (Some ''R1C1'')]
   \<and> students (stopRoulette [] fixedViolatingState)
       = [mkStudent ''S1'' (Some ''R1C2''), mkStudent ''S2'' (Some ''R1C1'')]
   \<and> seatMap (stopRoulette [] fixedViolatingState)
       = [mkSeat ''R1C1'' True (Some ''S2''), mkSeat ''R1C2'' True (Some ''S1''),
          mkSeat ''R1C3'' True None]
   \<and> winningHistory (rouletteState (stopRoulette [] fixedViolatingState))
       = [\<lparr>h_studentId = ''S1'', h_seatId = ''R1C2''\<rparr>]
   \<and> ''R1C1'' \<in> set (getAdjacentSeatIds ''R1C2'' (seatMap (stopRoulette [] fixedViolatingState)))
   \<and> \<not> checkRelationConstraints ''R1C2'' (Some (mkStudent ''S1'' None))
         (seatMap fixedViolatingState) (students fixedViolatingState)
         (relationConfig fixedViolatingState)
   \<and> \<not> checkRelationConstraints ''R1C2'' (Some (mkStudent ''S1'' (Some ''R1C2'')))
         (seatMap (stopRoulette [] fixedViolatingState))
         (students (stopRoulette [] fixedViolatingState))
         (relationConfig (stopRoulette [] fixedViolatingState))"
proof -
  have univ: "\<forall>rels. stopRoulette sh (st\<lparr>relationConfig := rels\<rparr>)
            = st\<lparr>relationConfig := rels,
                 seatMap :=
                   map (\<lambda>seat. if seatId seat = fixed_seatId fa
                                then seat\<lparr>assignedStudentId := Some (student_id sel)\<rparr> else seat)
                     (seatMap st),
                 students :=
                   map (\<lambda>s. if student_id s = student_id sel
                             then s\<lparr>isAssigned := True, assignedSeatId := Some (fixed_seatId fa)\<rparr>
                             else s)
                     (students st),
                 rouletteState := (rouletteState st)\<lparr>isRunning := False, isStopped := True,
                                    currentSelectedSeatId := Some (fixed_seatId fa),
                                    currentAssigningStudent := Some sel,
                                    winningHistory := winningHistory (rouletteState st)
                                      @ [\<lparr>h_studentId = student_id sel,
                                           h_seatId = fixed_seatId fa\<rparr>]\<rparr>,
                 manuallySelectedSeatIdForRoulette := None,
                 localErrorMessage := None,
                 openResultModal := True\<rparr>"
    if h: "isRunning (rouletteState st) \<and> selectedStudentForAssignment st = Some sel
     \<and> find (\<lambda>fsa. fixed_studentId fsa = student_id sel) (fixedSeatAssignments st) = Some fa
     \<and> find (\<lambda>seat. seatId seat = fixed_seatId fa) (seatMap st) = Some target
     \<and> isUsable target
     \<and> (truthy (assignedStudentId target) \<longrightarrow> assignedStudentId target = Some (student_id sel))"
  proof
    fix rels
    let ?st = "st\<lparr>relationConfig := rels\<rparr>"
    have r: "resolveFixedOrManual ?st sel
       = \<lparr>finalChosenSeatId = Some (fixed_seatId fa), isValidFinalSeat = True, message = None\<rparr>"
      using h by (auto simp: resolveFixedOrManual_def Let_def)
    then have v: "isValidFinalSeat (tryHighlighted ?st sel (resolveFixedOrManual ?st sel))"
      and f: "finalChosenSeatId (tryHighlighted ?st sel (resolveFixedOrManual ?st sel))
                = Some (fixed_seatId fa)"
      by (simp_all add: tryHighlighted_def)
    from h have "isRunning (rouletteState ?st)" "selectedStudentForAssignment ?st = Some sel"
      by simp_all
    from stopRoulette_chosen [OF this v, of sh] f r
    have "stopRoulette sh ?st = commitStop sel (fixed_seatId fa) None ?st" by simp
    then show "stopRoulette sh ?st
            = st\<lparr>relationConfig := rels,
                 seatMap :=
                   map (\<lambda>seat. if seatId seat = fixed_seatId fa
                                then seat\<lparr>assignedStudentId := Some (student_id sel)\<rparr> else seat)
                     (seatMap st),
                 students :=
                   map (\<lambda>s. if student_id s = student_id sel
                             then s\<lparr>isAssigned := True, assignedSeatId := Some (fixed_seatId fa)\<rparr>
                             else s)
                     (students st),
                 rouletteState := (rouletteState st)\<lparr>isRunning := False, isStopped := True,
                                    currentSelectedSeatId := Some (fixed_seatId fa),
                                    currentAssigningStudent := Some sel,
                                    winningHistory := winningHistory (rouletteState st)
                                      @ [\<lparr>h_studentId = student_id sel,
                                           h_seatId = fixed_seatId fa\<rparr>]\<rparr>,
                 manuallySelectedSeatIdForRoulette := None,
                 localErrorMessage := None,
                 openResultModal := True\<rparr>"
      by (simp add: commitStop_def assignSeat_def assignStudent_def)
  qed
  have c1: "relationConfig fixedViolatingState = [mkRelation ''S1'' ''S2'' NO_CO_SEAT]"
    and c2: "fixedSeatAssignments fixedViolatingState
               = [\<lparr>fixed_studentId = ''S1'', fixed_seatId = ''R1C2''\<rparr>]"
    and c3: "students fixedViolatingState = [mkStudent ''S1'' None, mkStudent ''S2'' (Some ''R1C1'')]"
    by (simp_all add: fixedViolatingState_def runningState_def)
  have c4: "students (stopRoulette [] fixedViolatingState)
       = [mkStudent ''S1'' (Some ''R1C2''), mkStudent ''S2'' (Some ''R1C1'')]"
    by code_simp
  have c5: "seatMap (stopRoulette [] fixedViolatingState)
       = [mkSeat ''R1C1'' True (Some ''S2''), mkSeat ''R1C2'' True (Some ''S1''),
          mkSeat ''R1C3'' True None]"
    by code_simp
  have c6: "winningHistory (rouletteState (stopRoulette [] fixedViolatingState))
       = [\<lparr>h_studentId = ''S1'', h_seatId = ''R1C2''\<rparr>]"
    by code_simp
  have c7: "''R1C1'' \<in> set (getAdjacentSeatIds ''R1C2'' (seatMap (stopRoulette [] fixedViolatingState)))"
    by code_simp
  have c8: "\<not> checkRelationConstraints ''R1C2'' (Some (mkStudent ''S1'' None))
         (seatMap fixedViolatingState) (students fixedViolatingState)
         (relationConfig fixedViolatingState)"
    by code_simp
  have c9: "\<not> checkRelationConstraints ''R1C2'' (Some (mkStudent ''S1'' (Some ''R1C2'')))
         (seatMap (stopRoulette [] fixedViolatingState))
         (students (stopRoulette [] fixedViolatingState))
         (relationConfig (stopRoulette [] fixedViolatingState))"
    by code_simp
  show ?thesis
    by (intro conjI impI) (rule univ c1 c2 c3 c4 c5 c6 c7 c8 c9, assumption?)+
qed

text \<open>
  The theorem at \<open>fixedViolatingState\<close>: S1 is committed to the fixed seat R1C2 with
  the relation and without it.
\<close>

theorem stopRoulette_fixed_seat_committed_unchecked_witness:
  "students (stopRoulette (availableSeats fixedViolatingState) fixedViolatingState)
     = [mkStudent ''S1'' (Some ''R1C2''), mkStudent ''S2'' (Some ''R1C1'')]
   \<and> seatMap (stopRoulette (availableSeats fixedViolatingState) fixedViolatingState)
     = [mkSeat ''R1C1'' True (Some ''S2''), mkSeat ''R1C2'' True (Some ''S1''),
        mkSeat ''R1C3'' True None]
   \<and> winningHistory (rouletteState
        (stopRoulette (availableSeats fixedViolatingState) fixedViolatingState))
     = [\<lparr>h_studentId = ''S1'', h_seatId = ''R1C2''\<rparr>]
   \<and> students (stopRoulette (availableSeats fixedViolatingState)
        (fixedViolatingState\<lparr>relationConfig := []\<rparr>))
     = [mkStudent ''S1'' (Some ''R1C2''), mkStudent ''S2'' (Some ''R1C1'')]
   \<and> \<not> checkRelationConstraints ''R1C2'' (Some (mkStudent ''S1'' None))
         (seatMap fixedViolatingState) (students fixedViolatingState)
         (relationConfig fixedViolatingState)"
proof -
  let ?st = fixedViolatingState
  let ?sel = "mkStudent ''S1'' None"
  let ?fa = "\<lparr>fixed_studentId = ''S1'', fixed_seatId = ''R1C2''\<rparr>"
  let ?t = "mkSeat ''R1C2'' True None"
  have h: "isRunning (rouletteState ?st)
     \<and> selectedStudentForAssignment ?st = Some ?sel
     \<and> find (\<lambda>fsa. fixed_studentId fsa = student_id ?sel) (fixedSeatAssignments ?st) = Some ?fa
     \<and> find (\<lambda>seat. seatId seat = fixed_seatId ?fa) (seatMap ?st) = Some ?t
     \<and> isUsable ?t
     \<and> (truthy (assignedStudentId ?t) \<longrightarrow> assignedStudentId ?t = Some (student_id ?sel))"
    by code_simp
  note th = stopRoulette_fixed_seat_committed_unchecked
    [of ?st ?sel ?fa ?t "availableSeats ?st", THEN conjunct1, rule_format, OF h]
  have before: "students ?st = [mkStudent ''S1'' None, mkStudent ''S2'' (Some ''R1C1'')]"
    "seatMap ?st = [mkSeat ''R1C1'' True (Some ''S2''), mkSeat ''R1C2'' True None,
        mkSeat ''R1C3'' True None]"
    "winningHistory (rouletteState ?st) = []"
    by (simp_all add: fixedViolatingState_def runningState_def)
  have same: "?st\<lparr>relationConfig := relationConfig ?st\<rparr> = ?st" by simp
  note t1 = th [of "relationConfig ?st", unfolded same]
  have a1: "students (stopRoulette (availableSeats ?st) ?st)
     = [mkStudent ''S1'' (Some ''R1C2''), mkStudent ''S2'' (Some ''R1C1'')]"
    unfolding t1 by (simp add: before mkStudent_def mkSeat_def)
  have a2: "seatMap (stopRoulette (availableSeats ?st) ?st)
     = [mkSeat ''R1C1'' True (Some ''S2''), mkSeat ''R1C2'' True (Some ''S1''),
        mkSeat ''R1C3'' True None]"
    unfolding t1 by (simp add: before mkStudent_def mkSeat_def)
  have a3: "winningHistory (rouletteState (stopRoulette (availableSeats ?st) ?st))
     = [\<lparr>h_studentId = ''S1'', h_seatId = ''R1C2''\<rparr>]"
    unfolding t1 by (simp add: before mkStudent_def mkSeat_def)
  have a4: "students (stopRoulette (availableSeats ?st) (?st\<lparr>relationConfig := []\<rparr>))
     = [mkStudent ''S1'' (Some ''R1C2''), mkStudent ''S2'' (Some ''R1C1'')]"
    unfolding th [of "[]"] by (simp add: before mkStudent_def mkSeat_def)
  from stopRoulette_fixed_seat_committed_unchecked [of ?st ?sel ?fa ?t "availableSeats ?st"]
  have c: "\<not> checkRelationConstraints ''R1C2'' (Some ?sel)
         (seatMap ?st) (students ?st) (relationConfig ?st)"
    by blast
  show ?thesis by (intro conjI) (rule a1 a2 a3 a4 c)+
qed

text \<open>
  C2. The claim: when the fixed seat of the student is unusable or held by another
  student, the draw fails and nothing is assigned. The handler sets the message and
  goes on to steps 3 and 4, which its comments reserve for students without a fixed
  seat. At \<open>fixedConflictState\<close> the fixed seat R1C1 of S1 is held by S2; the draw
  reports the conflict and assigns R1C2 to S1, in the seat map, the student list and
  the history.
\<close>

theorem stopRoulette_fixed_conflict_commits_other_seat:
  "find (\<lambda>fsa. fixed_studentId fsa = ''S1'') (fixedSeatAssignments fixedConflictState)
     = Some \<lparr>fixed_studentId = ''S1'', fixed_seatId = ''R1C1''\<rparr>
   \<and> find (\<lambda>seat. seatId seat = ''R1C1'') (seatMap fixedConflictState)
     = Some (mkSeat ''R1C1'' True (Some ''S2''))
   \<and> localErrorMessage (stopRoulette (availableSeats fixedConflictState) fixedConflictState)
     = Some [FixedSeatOccupied ''S1'' ''R1C1'']
   \<and> students (stopRoulette (availableSeats fixedConflictState) fixedConflictState)
     = [mkStudent ''S1'' (Some ''R1C2''), mkStudent ''S2'' (Some ''R1C1'')]
   \<and> seatMap (stopRoulette (availableSeats fixedConflictState) fixedConflictState)
     = [mkSeat ''R1C1'' True (Some ''S2''), mkSeat ''R1C2'' True (Some ''S1'')]
   \<and> winningHistory (rouletteState (stopRoulette (availableSeats fixedConflictState) fixedConflictState))
     = [\<lparr>h_studentId = ''S1'', h_seatId = ''R1C2''\<rparr>]"
  by code_simp

text \<open>
  By the evaluation above, seat map, student list and history after the draw differ
  from those before it.
\<close>

theorem stopRoulette_fixed_conflict_commits_other_seat_witness:
  "students (stopRoulette (availableSeats fixedConflictState) fixedConflictState)
     \<noteq> students fixedConflictState
   \<and> seatMap (stopRoulette (availableSeats fixedConflictState) fixedConflictState)
     \<noteq> seatMap fixedConflictState
   \<and> winningHistory (rouletteState (stopRoulette (availableSeats fixedConflictState) fixedConflictState))
     \<noteq> winningHistory (rouletteState fixedConflictState)"
proof -
  have before: "students fixedConflictState = [mkStudent ''S1'' None, mkStudent ''S2'' (Some ''R1C1'')]"
    "seatMap fixedConflictState = [mkSeat ''R1C1'' True (Some ''S2''), mkSeat ''R1C2'' True None]"
    "winningHistory (rouletteState fixedConflictState) = []"
    by (simp_all add: fixedConflictState_def runningState_def)
  from stopRoulette_fixed_conflict_commits_other_seat show ?thesis
    by (simp add: before mkStudent_def mkSeat_def)
qed

text \<open>
  C3, as claimed: an inadmissible manual selection makes the draw fail with no seat
  committed. At \<open>manualInadmissibleState\<close> the user has selected R1C2, which the
  relation of S1 with S2 forbids; the draw sets the message and commits R1C3, found by
  the fallback search.
\<close>

theorem stopRoulette_manual_fallback_counterexample:
  "isRunning (rouletteState manualInadmissibleState)
   \<and> selectedStudentForAssignment manualInadmissibleState = Some (mkStudent ''S1'' None)
   \<and> fixedSeatAssignments manualInadmissibleState = []
   \<and> manuallySelectedSeatIdForRoulette manualInadmissibleState = Some ''R1C2''
   \<and> \<not> checkRelationConstraints ''R1C2'' (Some (mkStudent ''S1'' None))
         (seatMap manualInadmissibleState) (students manualInadmissibleState)
         (relationConfig manualInadmissibleState)
   \<and> students (stopRoulette (availableSeats manualInadmissibleState) manualInadmissibleState)
     = [mkStudent ''S1'' (Some ''R1C3''), mkStudent ''S2'' (Some ''R1C1'')]
   \<and> seatMap (stopRoulette (availableSeats manualInadmissibleState) manualInadmissibleState)
     = [mkSeat ''R1C1'' True (Some ''S2''), mkSeat ''R1C2'' True None,
        mkSeat ''R1C3'' True (Some ''S1'')]
   \<and> winningHistory (rouletteState
        (stopRoulette (availableSeats manualInadmissibleState) manualInadmissibleState))
     = [\<lparr>h_studentId = ''S1'', h_seatId = ''R1C3''\<rparr>]
   \<and> localErrorMessage (stopRoulette (availableSeats manualInadmissibleState) manualInadmissibleState)
     = Some [ManualSeatViolatesRelations ''R1C2'']"
  by code_simp

lemma tryHighlighted_set_manual:
  "tryHighlighted (st\<lparr>manuallySelectedSeatIdForRoulette := m\<rparr>) sel ch = tryHighlighted st sel ch"
  by (simp add: tryHighlighted_def availableSeats_def split: option.splits)

lemma tryHighlighted_update_message:
  "tryHighlighted st sel (ch\<lparr>message := m\<rparr>) = (tryHighlighted st sel ch)\<lparr>message := m\<rparr>"
  by (simp add: tryHighlighted_def split: option.splits)

text \<open>
  C3, amended. For a student without a fixed assignment, a manual selection that is not
  among the available seats or fails the constraint check is reported in the message,
  and the draw goes on with the highlighted seat and the fallback search: seat map,
  students and roulette state (history included) are those of the same draw without a
  manual selection. When that draw commits a seat the message names the rejected manual
  selection; when it finds none the message says that no seat satisfies the relations.
\<close>

theorem stopRoulette_manual_invalid:
  assumes "isRunning (rouletteState st)"
    and "selectedStudentForAssignment st = Some sel"
    and "find (\<lambda>fsa. fixed_studentId fsa = student_id sel) (fixedSeatAssignments st) = None"
    and "manuallySelectedSeatIdForRoulette st = Some m" and "m \<noteq> []"
    and "find (\<lambda>seat. seatId seat = m) (availableSeats st) = None
         \<or> \<not> checkRelationConstraints m (Some sel) (seatMap st) (students st) (relationConfig st)"
  shows "seatMap (stopRoulette sh st)
           = seatMap (stopRoulette sh (st\<lparr>manuallySelectedSeatIdForRoulette := None\<rparr>))
     \<and> students (stopRoulette sh st)
           = students (stopRoulette sh (st\<lparr>manuallySelectedSeatIdForRoulette := None\<rparr>))
     \<and> rouletteState (stopRoulette sh st)
           = rouletteState (stopRoulette sh (st\<lparr>manuallySelectedSeatIdForRoulette := None\<rparr>))
     \<and> localErrorMessage (stopRoulette sh st)
           = (if localErrorMessage (stopRoulette sh (st\<lparr>manuallySelectedSeatIdForRoulette := None\<rparr>))
                  = None
              then Some [if find (\<lambda>seat. seatId seat = m) (availableSeats st) = None
                         then ManualSeatUnavailable m else ManualSeatViolatesRelations m]
              else Some [NoSeatSatisfyingRelations])"
proof -
  let ?st0 = "st\<lparr>manuallySelectedSeatIdForRoulette := None\<rparr>"
  let ?start = "\<lparr>finalChosenSeatId = None, isValidFinalSeat = False, message = None\<rparr>"
  let ?err = "[if find (\<lambda>seat. seatId seat = m) (availableSeats st) = None
               then ManualSeatUnavailable m else ManualSeatViolatesRelations m]"
  have r: "resolveFixedOrManual st sel = ?start\<lparr>message := Some ?err\<rparr>"
    using assms(3-6)
    by (auto simp: resolveFixedOrManual_def Let_def truthy_def split: option.splits)
  have r0: "resolveFixedOrManual ?st0 sel = ?start"
    using assms(3) by (simp add: resolveFixedOrManual_def Let_def truthy_def)
  have t: "tryHighlighted st sel (resolveFixedOrManual st sel)
             = (tryHighlighted st sel ?start)\<lparr>message := Some ?err\<rparr>"
    unfolding r by (rule tryHighlighted_update_message)
  have t0: "tryHighlighted ?st0 sel (resolveFixedOrManual ?st0 sel) = tryHighlighted st sel ?start"
    unfolding r0 by (rule tryHighlighted_set_manual)
  have msg: "message (resolveFixedOrManual st sel) = Some ?err"
    unfolding r by simp
  have msg0: "message (resolveFixedOrManual ?st0 sel) = None"
    unfolding r0 by simp
  have fin: "finalChosenSeatId (tryHighlighted st sel (resolveFixedOrManual st sel))
               = finalChosenSeatId (tryHighlighted st sel ?start)"
    unfolding t by simp
  have val: "isValidFinalSeat (tryHighlighted st sel (resolveFixedOrManual st sel))
               = isValidFinalSeat (tryHighlighted st sel ?start)"
    unfolding t by simp
  have run0: "isRunning (rouletteState ?st0)" "selectedStudentForAssignment ?st0 = Some sel"
    using assms(1,2) by simp_all
  show ?thesis
  proof (cases "isValidFinalSeat (tryHighlighted st sel ?start)")
    case True
    have v: "isValidFinalSeat (tryHighlighted st sel (resolveFixedOrManual st sel))"
      unfolding val by (rule True)
    have v0: "isValidFinalSeat (tryHighlighted ?st0 sel (resolveFixedOrManual ?st0 sel))"
      unfolding t0 by (rule True)
    from stopRoulette_chosen [OF assms(1,2) v, of sh]
    obtain chosen where c: "finalChosenSeatId (tryHighlighted st sel ?start) = Some chosen"
      and s: "stopRoulette sh st = commitStop sel chosen (Some ?err) st"
      unfolding fin msg by blast
    from stopRoulette_chosen [OF run0 v0, of sh]
    have s0: "stopRoulette sh ?st0 = commitStop sel chosen None ?st0"
      unfolding t0 msg0 c by simp
    show ?thesis unfolding s s0 by (simp add: commitStop_def)
  next
    case False
    have v: "\<not> isValidFinalSeat (tryHighlighted st sel (resolveFixedOrManual st sel))"
      unfolding val by (rule False)
    have v0: "\<not> isValidFinalSeat (tryHighlighted ?st0 sel (resolveFixedOrManual ?st0 sel))"
      unfolding t0 by (rule False)
    show ?thesis
      unfolding stopRoulette_fallback [OF assms(1,2) v, of sh]
        stopRoulette_fallback [OF run0 v0, of sh] msg msg0
      by (simp add: commitStop_def failStop_def split: option.splits)
  qed
qed

text \<open>The amended statement at \<open>manualInadmissibleState\<close>.\<close>

theorem stopRoulette_manual_invalid_witness:
  "seatMap (stopRoulette (availableSeats manualInadmissibleState) manualInadmissibleState)
     = seatMap (stopRoulette (availableSeats manualInadmissibleState)
         (manualInadmissibleState\<lparr>manuallySelectedSeatIdForRoulette := None\<rparr>))
   \<and> students (stopRoulette (availableSeats manualInadmissibleState) manualInadmissibleState)
     = students (stopRoulette (availableSeats manualInadmissibleState)
         (manualInadmissibleState\<lparr>manuallySelectedSeatIdForRoulette := None\<rparr>))
   \<and> rouletteState (stopRoulette (availableSeats manualInadmissibleState) manualInadmissibleState)
     = rouletteState (stopRoulette (availableSeats manualInadmissibleState)
         (manualInadmissibleState\<lparr>manuallySelectedSeatIdForRoulette := None\<rparr>))
   \<and> localErrorMessage (stopRoulette (availableSeats manualInadmissibleState) manualInadmissibleState)
     = Some [ManualSeatViolatesRelations ''R1C2'']"
proof -
  let ?st = manualInadmissibleState
  let ?sel = "mkStudent ''S1'' None"
  have h: "isRunning (rouletteState ?st)" "selectedStudentForAssignment ?st = Some ?sel"
    "find (\<lambda>fsa. fixed_studentId fsa = student_id ?sel) (fixedSeatAssignments ?st) = None"
    "manuallySelectedSeatIdForRoulette ?st = Some ''R1C2''" "''R1C2'' \<noteq> []"
    by code_simp+
  have bad: "find (\<lambda>seat. seatId seat = ''R1C2'') (availableSeats ?st) = None
         \<or> \<not> checkRelationConstraints ''R1C2'' (Some ?sel) (seatMap ?st) (students ?st) (relationConfig ?st)"
    by code_simp
  have avail: "find (\<lambda>seat. seatId seat = ''R1C2'') (availableSeats ?st) \<noteq> None"
    by code_simp
  have m0: "localErrorMessage (stopRoulette (availableSeats ?st)
              (?st\<lparr>manuallySelectedSeatIdForRoulette := None\<rparr>)) = None"
    by code_simp
  from stopRoulette_manual_invalid [OF h bad, of "availableSeats ?st"] avail m0
  show ?thesis by simp
qed

section \<open>Properties of the batch assignment and of the reset\<close>

text \<open>
  C7. \<^verbatim>\<open>handleBulkAssign\<close> returns before phase 1, with a message and with seat map,
  students and roulette state (history included) as they were, when there is no
  unassigned student, when there are unassigned students and no available seat, and
  when the unassigned students outnumber the available seats.
\<close>

theorem handleBulkAssign_preconditions:
  "(unassignedStudents st = []
      \<longrightarrow> handleBulkAssign confirmed shuffleStudents shuffleSeats st
            = st\<lparr>localErrorMessage := Some [NoStudentsToAssign]\<rparr>)
   \<and> (unassignedStudents st \<noteq> [] \<and> availableSeats st = []
      \<longrightarrow> handleBulkAssign confirmed shuffleStudents shuffleSeats st
            = st\<lparr>localErrorMessage := Some [NoAvailableSeats]\<rparr>)
   \<and> (availableSeats st \<noteq> [] \<and> length (unassignedStudents st) > length (availableSeats st)
      \<longrightarrow> handleBulkAssign confirmed shuffleStudents shuffleSeats st
            = st\<lparr>localErrorMessage :=
                   Some [MoreStudentsThanSeats (length (unassignedStudents st))
                           (length (availableSeats st))]\<rparr>)
   \<and> (unassignedStudents st = [] \<or> availableSeats st = []
        \<or> length (unassignedStudents st) > length (availableSeats st)
      \<longrightarrow> localErrorMessage (handleBulkAssign confirmed shuffleStudents shuffleSeats st) \<noteq> None
          \<and> seatMap (handleBulkAssign confirmed shuffleStudents shuffleSeats st) = seatMap st
          \<and> students (handleBulkAssign confirmed shuffleStudents shuffleSeats st) = students st
          \<and> rouletteState (handleBulkAssign confirmed shuffleStudents shuffleSeats st)
              = rouletteState st)"
  by (auto simp: handleBulkAssign_def)

text \<open>
  The theorem at three states: one assigned student only; five students and no seat;
  five students and four seats.
\<close>

theorem handleBulkAssign_preconditions_witness:
  "handleBulkAssign True (\<lambda>xs. xs) (\<lambda>xs. xs)
       (fiveStudentsFourSeats\<lparr>students := [mkStudent ''S1'' (Some ''R1C1'')]\<rparr>)
     = (fiveStudentsFourSeats\<lparr>students := [mkStudent ''S1'' (Some ''R1C1'')]\<rparr>)
         \<lparr>localErrorMessage := Some [NoStudentsToAssign]\<rparr>
   \<and> handleBulkAssign True (\<lambda>xs. xs) (\<lambda>xs. xs) (fiveStudentsFourSeats\<lparr>seatMap := []\<rparr>)
     = (fiveStudentsFourSeats\<lparr>seatMap := []\<rparr>)\<lparr>localErrorMessage := Some [NoAvailableSeats]\<rparr>
   \<and> handleBulkAssign True (\<lambda>xs. xs) (\<lambda>xs. xs) fiveStudentsFourSeats
     = fiveStudentsFourSeats
         \<lparr>localErrorMessage :=
            Some [MoreStudentsThanSeats (length (unassignedStudents fiveStudentsFourSeats))
                    (length (availableSeats fiveStudentsFourSeats))]\<rparr>
   \<and> localErrorMessage (handleBulkAssign True (\<lambda>xs. xs) (\<lambda>xs. xs) fiveStudentsFourSeats) \<noteq> None
   \<and> seatMap (handleBulkAssign True (\<lambda>xs. xs) (\<lambda>xs. xs) fiveStudentsFourSeats)
     = seatMap fiveStudentsFourSeats
   \<and> students (handleBulkAssign True (\<lambda>xs. xs) (\<lambda>xs. xs) fiveStudentsFourSeats)
     = students fiveStudentsFourSeats
   \<and> rouletteState (handleBulkAssign True (\<lambda>xs. xs) (\<lambda>xs. xs) fiveStudentsFourSeats)
     = rouletteState fiveStudentsFourSeats"
proof -
  let ?none = "fiveStudentsFourSeats\<lparr>students := [mkStudent ''S1'' (Some ''R1C1'')]\<rparr>"
  let ?noseat = "fiveStudentsFourSeats\<lparr>seatMap := []\<rparr>"
  have u1: "unassignedStudents ?none = []" by code_simp
  have u2: "unassignedStudents ?noseat \<noteq> [] \<and> availableSeats ?noseat = []" by code_simp
  have u3: "length (unassignedStudents fiveStudentsFourSeats)
              > length (availableSeats fiveStudentsFourSeats)" by code_simp
  from handleBulkAssign_preconditions [of ?none True "\<lambda>xs. xs" "\<lambda>xs. xs"] u1
  have a: "handleBulkAssign True (\<lambda>xs. xs) (\<lambda>xs. xs) ?none
             = ?none\<lparr>localErrorMessage := Some [NoStudentsToAssign]\<rparr>"
    by blast
  from handleBulkAssign_preconditions [of ?noseat True "\<lambda>xs. xs" "\<lambda>xs. xs"] u2
  have b: "handleBulkAssign True (\<lambda>xs. xs) (\<lambda>xs. xs) ?noseat
             = ?noseat\<lparr>localErrorMessage := Some [NoAvailableSeats]\<rparr>"
    by blast
  from handleBulkAssign_preconditions [of fiveStudentsFourSeats True "\<lambda>xs. xs" "\<lambda>xs. xs"] u3
  have c: "localErrorMessage (handleBulkAssign True (\<lambda>xs. xs) (\<lambda>xs. xs) fiveStudentsFourSeats) \<noteq> None
   \<and> seatMap (handleBulkAssign True (\<lambda>xs. xs) (\<lambda>xs. xs) fiveStudentsFourSeats)
     = seatMap fiveStudentsFourSeats
   \<and> students (handleBulkAssign True (\<lambda>xs. xs) (\<lambda>xs. xs) fiveStudentsFourSeats)
     = students fiveStudentsFourSeats
   \<and> rouletteState (handleBulkAssign True (\<lambda>xs. xs) (\<lambda>xs. xs) fiveStudentsFourSeats)
     = rouletteState fiveStudentsFourSeats"
    by blast
  have u4: "availableSeats fiveStudentsFourSeats \<noteq> []" by code_simp
  from handleBulkAssign_preconditions [of fiveStudentsFourSeats True "\<lambda>xs. xs" "\<lambda>xs. xs"] u3 u4
  have d: "handleBulkAssign True (\<lambda>xs. xs) (\<lambda>xs. xs) fiveStudentsFourSeats
     = fiveStudentsFourSeats
         \<lparr>localErrorMessage :=
            Some [MoreStudentsThanSeats (length (unassignedStudents fiveStudentsFourSeats))
                    (length (availableSeats fiveStudentsFourSeats))]\<rparr>"
    by blast
  from a b c d show ?thesis by blast
qed

text \<open>
  C8, as claimed: with five unassigned students and four usable free seats the batch
  assigns four students and reports one. At \<open>fiveStudentsFourSeats\<close> the handler stops
  at its third check: the message counts five students against four seats, no student
  is assigned and the history stays empty.
\<close>

theorem handleBulkAssign_five_students_four_seats_counterexample:
  "length (unassignedStudents fiveStudentsFourSeats) = 5
   \<and> length (availableSeats fiveStudentsFourSeats) = 4
   \<and> relationConfig fiveStudentsFourSeats = []
   \<and> fixedSeatAssignments fiveStudentsFourSeats = []
   \<and> handleBulkAssign True (\<lambda>xs. xs) (\<lambda>xs. xs) fiveStudentsFourSeats
       = fiveStudentsFourSeats\<lparr>localErrorMessage := Some [MoreStudentsThanSeats 5 4]\<rparr>
   \<and> filter isAssigned (students (handleBulkAssign True (\<lambda>xs. xs) (\<lambda>xs. xs) fiveStudentsFourSeats)) = []
   \<and> winningHistory (rouletteState (handleBulkAssign True (\<lambda>xs. xs) (\<lambda>xs. xs) fiveStudentsFourSeats)) = []"
  by code_simp

text \<open>
  C8, amended. With five unassigned students and four available seats the batch
  returns at its pre-check, whatever the relations, the fixed assignments and the
  shuffles: the message counts five students against four seats and nothing else of
  the state changes, so no assignment is committed.
\<close>

theorem handleBulkAssign_five_students_four_seats:
  "length (unassignedStudents st) = 5 \<and> length (availableSeats st) = 4
   \<longrightarrow> handleBulkAssign confirmed shuffleStudents shuffleSeats st
         = st\<lparr>localErrorMessage := Some [MoreStudentsThanSeats 5 4]\<rparr>"
  by (simp add: handleBulkAssign_def)

text \<open>The amended statement at \<open>fiveStudentsFourSeats\<close>.\<close>

theorem handleBulkAssign_five_students_four_seats_witness:
  "length (unassignedStudents fiveStudentsFourSeats) = 5
   \<and> length (availableSeats fiveStudentsFourSeats) = 4
   \<and> handleBulkAssign True (\<lambda>xs. xs) (\<lambda>xs. xs) fiveStudentsFourSeats
       = fiveStudentsFourSeats\<lparr>localErrorMessage := Some [MoreStudentsThanSeats 5 4]\<rparr>"
proof -
  have h: "length (unassignedStudents fiveStudentsFourSeats) = 5
     \<and> length (availableSeats fiveStudentsFourSeats) = 4"
    by code_simp
  from handleBulkAssign_five_students_four_seats [of fiveStudentsFourSeats True "\<lambda>xs. xs" "\<lambda>xs. xs"] h
  show ?thesis by blast
qed

text \<open>
  C9. A confirmed reset leaves every seat without a holder, every student unassigned
  and without a seat, and the history empty; the fixed assignments, the relations and
  the remaining fields of every seat (identifier, row, column, usability) and of every
  student (identifier, number, name, kana, the three information fields) are as
  before.
\<close>

theorem handleResetRoulette_frame:
  "map assignedStudentId (seatMap (handleResetRoulette True sortByNumber st))
     = replicate (length (seatMap st)) None
   \<and> map isAssigned (students (handleResetRoulette True sortByNumber st))
     = replicate (length (students st)) False
   \<and> map assignedSeatId (students (handleResetRoulette True sortByNumber st))
     = replicate (length (students st)) None
   \<and> winningHistory (rouletteState (handleResetRoulette True sortByNumber st)) = []
   \<and> fixedSeatAssignments (handleResetRoulette True sortByNumber st) = fixedSeatAssignments st
   \<and> relationConfig (handleResetRoulette True sortByNumber st) = relationConfig st
   \<and> map isUsable (seatMap (handleResetRoulette True sortByNumber st)) = map isUsable (seatMap st)
   \<and> map seatId (seatMap (handleResetRoulette True sortByNumber st)) = map seatId (seatMap st)
   \<and> map row (seatMap (handleResetRoulette True sortByNumber st)) = map row (seatMap st)
   \<and> map col (seatMap (handleResetRoulette True sortByNumber st)) = map col (seatMap st)
   \<and> map student_id (students (handleResetRoulette True sortByNumber st)) = map student_id (students st)
   \<and> map number (students (handleResetRoulette True sortByNumber st)) = map number (students st)
   \<and> map name (students (handleResetRoulette True sortByNumber st)) = map name (students st)
   \<and> map kana (students (handleResetRoulette True sortByNumber st)) = map kana (students st)
   \<and> map info1 (students (handleResetRoulette True sortByNumber st)) = map info1 (students st)
   \<and> map info2 (students (handleResetRoulette True sortByNumber st)) = map info2 (students st)
   \<and> map info3 (students (handleResetRoulette True sortByNumber st)) = map info3 (students st)"
  by (simp add: handleResetRoulette_def Let_def comp_def map_replicate_const)

section \<open>The handlers keep the assignment invariant\<close>

lemma set_heldSeats: "set (heldSeats ss) = {q. \<exists>s\<in>set ss. assignedSeatId s = Some q}"
  by (induction ss) (auto simp: heldSeats_def split: option.splits)

lemma heldSeats_Cons:
  "heldSeats (s # ss) = (case assignedSeatId s of None \<Rightarrow> [] | Some q \<Rightarrow> [q]) @ heldSeats ss"
  by (simp add: heldSeats_def)

lemma assignStudent_ids [simp]: "map student_id (assignStudent chosen sid ss) = map student_id ss"
  by (induction ss) (auto simp: assignStudent_def)

lemma assignStudent_absent:
  "sid \<notin> student_id ` set ss \<Longrightarrow> assignStudent chosen sid ss = ss"
  by (induction ss) (auto simp: assignStudent_def)

lemma assignStudent_Cons:
  "assignStudent chosen sid (s # ss) =
     (if student_id s = sid then s\<lparr>isAssigned := True, assignedSeatId := Some chosen\<rparr> else s)
     # assignStudent chosen sid ss"
  by (simp add: assignStudent_def)

lemma in_assignStudent:
  "s' \<in> set (assignStudent chosen sid ss) \<Longrightarrow>
     (s' \<in> set ss \<and> student_id s' \<noteq> sid)
     \<or> (\<exists>s\<in>set ss. student_id s = sid \<and> s' = s\<lparr>isAssigned := True, assignedSeatId := Some chosen\<rparr>)"
  by (auto simp: assignStudent_def split: if_splits)

lemma in_assignSeat:
  "seat' \<in> set (assignSeat chosen sid sm) \<Longrightarrow>
     (seat' \<in> set sm \<and> seatId seat' \<noteq> chosen)
     \<or> (\<exists>seat\<in>set sm. seatId seat = chosen \<and> seat' = seat\<lparr>assignedStudentId := Some sid\<rparr>)"
  by (auto simp: assignSeat_def split: if_splits)

lemma held_after_assign:
  "set (heldSeats (assignStudent chosen sid ss)) \<subseteq> insert chosen (set (heldSeats ss))"
  by (auto simp: set_heldSeats dest!: in_assignStudent)

text \<open>
  Giving a seat to the student with identifier \<open>sid\<close> keeps the held seats distinct
  when no student with another identifier holds that seat.
\<close>

lemma distinct_heldSeats_assign:
  assumes "distinct (map student_id ss)" "distinct (heldSeats ss)"
    and "\<forall>s\<in>set ss. assignedSeatId s = Some chosen \<longrightarrow> student_id s = sid"
  shows "distinct (heldSeats (assignStudent chosen sid ss))"
  using assms
proof (induction ss)
  case Nil
  show ?case by (simp add: heldSeats_def assignStudent_def)
next
  case (Cons s ss)
  from Cons.prems have d: "distinct (map student_id ss)" and fresh: "student_id s \<notin> student_id ` set ss"
    and dh: "distinct (heldSeats ss)"
    and free: "\<forall>s\<in>set ss. assignedSeatId s = Some chosen \<longrightarrow> student_id s = sid"
    by (auto simp: heldSeats_Cons)
  show ?case
  proof (cases "student_id s = sid")
    case True
    with fresh have same: "assignStudent chosen sid ss = ss"
      by (simp add: assignStudent_absent)
    have "chosen \<notin> set (heldSeats ss)"
    proof
      assume "chosen \<in> set (heldSeats ss)"
      then obtain s' where "s' \<in> set ss" "assignedSeatId s' = Some chosen"
        by (auto simp: set_heldSeats)
      with free True have "s' \<in> set ss" "student_id s' = student_id s" by auto
      with fresh show False by (metis imageI)
    qed
    with dh True same show ?thesis
      by (simp add: assignStudent_Cons heldSeats_Cons)
  next
    case False
    have ih: "distinct (heldSeats (assignStudent chosen sid ss))"
      using Cons.IH [OF d dh free] .
    show ?thesis
    proof (cases "assignedSeatId s")
      case None
      with False ih show ?thesis by (simp add: assignStudent_Cons heldSeats_Cons)
    next
      case (Some q)
      from Cons.prems(3) Some False have "q \<noteq> chosen" by auto
      moreover from Cons.prems(2) Some have "q \<notin> set (heldSeats ss)"
        by (simp add: heldSeats_Cons)
      ultimately have "q \<notin> set (heldSeats (assignStudent chosen sid ss))"
        using held_after_assign [of chosen sid ss] by auto
      with False Some ih show ?thesis by (simp add: assignStudent_Cons heldSeats_Cons)
    qed
  qed
qed

text \<open>The commit keeps the strengthened invariant under the same condition.\<close>

lemma consistent_assign:
  assumes c: "consistent ss sm"
    and free: "\<forall>s\<in>set ss. assignedSeatId s = Some chosen \<longrightarrow> student_id s = sid"
  shows "consistent (assignStudent chosen sid ss) (assignSeat chosen sid sm)"
proof -
  from c have d: "distinct (map student_id ss)" and ne: "\<forall>s\<in>set ss. student_id s \<noteq> []"
    and ia: "\<forall>s\<in>set ss. isAssigned s = (assignedSeatId s \<noteq> None)"
    and dh: "distinct (heldSeats ss)" and ag: "seatsAgree ss sm"
    by (simp_all add: consistent_def assignmentInvariant_def)
  have ne': "\<forall>s\<in>set (assignStudent chosen sid ss). student_id s \<noteq> []"
    using ne by (auto dest!: in_assignStudent)
  have ia': "\<forall>s\<in>set (assignStudent chosen sid ss). isAssigned s = (assignedSeatId s \<noteq> None)"
    using ia by (auto dest!: in_assignStudent)
  have dh': "distinct (heldSeats (assignStudent chosen sid ss))"
    using distinct_heldSeats_assign [OF d dh free] .
  have ag': "seatsAgree (assignStudent chosen sid ss) (assignSeat chosen sid sm)"
    unfolding seatsAgree_def
  proof (intro ballI impI)
    fix s' seat'
    assume s': "s' \<in> set (assignStudent chosen sid ss)"
      and seat': "seat' \<in> set (assignSeat chosen sid sm)"
      and holds: "assignedSeatId s' = Some (seatId seat')"
    from in_assignSeat [OF seat'] show "assignedStudentId seat' = Some (student_id s')"
    proof
      assume a: "seat' \<in> set sm \<and> seatId seat' \<noteq> chosen"
      from in_assignStudent [OF s'] show ?thesis
      proof
        assume "s' \<in> set ss \<and> student_id s' \<noteq> sid"
        with a holds ag show ?thesis by (auto simp: seatsAgree_def)
      next
        assume "\<exists>s\<in>set ss. student_id s = sid
                  \<and> s' = s\<lparr>isAssigned := True, assignedSeatId := Some chosen\<rparr>"
        with a holds show ?thesis by auto
      qed
    next
      assume a: "\<exists>seat\<in>set sm. seatId seat = chosen \<and> seat' = seat\<lparr>assignedStudentId := Some sid\<rparr>"
      from in_assignStudent [OF s'] show ?thesis
      proof
        assume b: "s' \<in> set ss \<and> student_id s' \<noteq> sid"
        with a holds free show ?thesis by auto
      next
        assume "\<exists>s\<in>set ss. student_id s = sid
                  \<and> s' = s\<lparr>isAssigned := True, assignedSeatId := Some chosen\<rparr>"
        with a show ?thesis by auto
      qed
    qed
  qed
  from d ne' ia' dh' ag' show ?thesis
    by (simp add: consistent_def assignmentInvariant_def)
qed

text \<open>No student holds an available seat; only its own student may hold a valid fixed seat.\<close>

lemma available_free:
  assumes "consistent ss sm" "p \<in> set sm" "isAvailable p"
  shows "\<forall>s\<in>set ss. assignedSeatId s \<noteq> Some (seatId p)"
proof
  fix s assume s: "s \<in> set ss"
  show "assignedSeatId s \<noteq> Some (seatId p)"
  proof
    assume "assignedSeatId s = Some (seatId p)"
    with assms(1,2) s have "assignedStudentId p = Some (student_id s)" "student_id s \<noteq> []"
      by (auto simp: consistent_def seatsAgree_def)
    with assms(3) show False by (simp add: isAvailable_def truthy_def)
  qed
qed

lemma fixed_free:
  assumes "consistent ss sm" "target \<in> set sm"
    and "truthy (assignedStudentId target) \<longrightarrow> assignedStudentId target = Some sid"
  shows "\<forall>s\<in>set ss. assignedSeatId s = Some (seatId target) \<longrightarrow> student_id s = sid"
proof (intro ballI impI)
  fix s assume s: "s \<in> set ss" and h: "assignedSeatId s = Some (seatId target)"
  with assms(1,2) have "assignedStudentId target = Some (student_id s)" "student_id s \<noteq> []"
    by (auto simp: consistent_def seatsAgree_def)
  with assms(3) show "student_id s = sid" by (simp add: truthy_def)
qed


lemma commitStop_fields [simp]:
  "students (commitStop sel chosen msg st) = assignStudent chosen (student_id sel) (students st)"
  "seatMap (commitStop sel chosen msg st) = assignSeat chosen (student_id sel) (seatMap st)"
  by (simp_all add: commitStop_def)

lemma failStop_fields [simp]:
  "students (failStop msg st) = students st" "seatMap (failStop msg st) = seatMap st"
  by (simp_all add: failStop_def)

text \<open>
  A seat chosen by steps 1 to 3 is an available seat of the map, or a seat of the map
  that nobody but the student holds.
\<close>

lemma chosen_source:
  assumes "isValidFinalSeat (tryHighlighted st sel (resolveFixedOrManual st sel))"
    and "finalChosenSeatId (tryHighlighted st sel (resolveFixedOrManual st sel)) = Some chosen"
  shows "(\<exists>p\<in>set (seatMap st). seatId p = chosen \<and> isAvailable p)
         \<or> (\<exists>target\<in>set (seatMap st). seatId target = chosen
               \<and> (truthy (assignedStudentId target)
                    \<longrightarrow> assignedStudentId target = Some (student_id sel)))"
proof (cases "isValidFinalSeat (resolveFixedOrManual st sel)")
  case True
  then have same: "tryHighlighted st sel (resolveFixedOrManual st sel) = resolveFixedOrManual st sel"
    by (simp add: tryHighlighted_def)
  from True assms(2) show ?thesis
    unfolding same
    by (auto simp: resolveFixedOrManual_def Let_def availableSeats_def
          split: option.splits if_splits dest!: find_SomeD)
next
  case False
  with assms show ?thesis
    by (auto simp: tryHighlighted_def availableSeats_def
          split: option.splits if_splits dest!: find_SomeD)
qed

lemma stopRoulette_consistent:
  assumes c: "consistent (students st) (seatMap st)"
    and sh: "set sh \<subseteq> set (availableSeats st)"
  shows "consistent (students (stopRoulette sh st)) (seatMap (stopRoulette sh st))"
proof (cases "isRunning (rouletteState st)")
  case False
  with c show ?thesis by (simp add: stopRoulette_def)
next
  case True
  show ?thesis
  proof (cases "selectedStudentForAssignment st")
    case None
    with True c show ?thesis by (simp add: stopRoulette_def)
  next
    case (Some sel)
    show ?thesis
    proof (cases "isValidFinalSeat (tryHighlighted st sel (resolveFixedOrManual st sel))")
      case valid: True
      from stopRoulette_chosen [OF True Some valid, of sh]
      obtain chosen where f: "finalChosenSeatId (tryHighlighted st sel (resolveFixedOrManual st sel)) = Some chosen"
        and s: "stopRoulette sh st = commitStop sel chosen (message (resolveFixedOrManual st sel)) st"
        by blast
      from chosen_source [OF valid f]
      have "\<forall>s\<in>set (students st). assignedSeatId s = Some chosen \<longrightarrow> student_id s = student_id sel"
      proof
        assume "\<exists>p\<in>set (seatMap st). seatId p = chosen \<and> isAvailable p"
        then obtain p where "p \<in> set (seatMap st)" "seatId p = chosen" "isAvailable p" by blast
        with available_free [OF c, of p] show ?thesis by auto
      next
        assume "\<exists>target\<in>set (seatMap st). seatId target = chosen
               \<and> (truthy (assignedStudentId target)
                    \<longrightarrow> assignedStudentId target = Some (student_id sel))"
        then obtain target where "target \<in> set (seatMap st)" "seatId target = chosen"
          "truthy (assignedStudentId target) \<longrightarrow> assignedStudentId target = Some (student_id sel)"
          by blast
        with fixed_free [OF c, of target "student_id sel"] show ?thesis by auto
      qed
      with c show ?thesis unfolding s by (simp add: consistent_assign)
    next
      case invalid: False
      show ?thesis
      proof (cases "find (\<lambda>p. seatId p \<noteq> []
                    \<and> checkRelationConstraints (seatId p) (Some sel) (seatMap st) (students st)
                        (relationConfig st)) (take 100 sh)")
        case None
        with c show ?thesis
          unfolding stopRoulette_fallback [OF True Some invalid, of sh] by simp
      next
        case (Some p)
        then have "p \<in> set (take 100 sh)" by (auto dest: find_SomeD)
        with sh have "p \<in> set (seatMap st)" "isAvailable p"
          by (auto simp: availableSeats_def dest: in_set_takeD)
        with available_free [OF c, of p]
        have "\<forall>s\<in>set (students st). assignedSeatId s = Some (seatId p) \<longrightarrow> student_id s = student_id sel"
          by auto
        with c Some show ?thesis
          unfolding stopRoulette_fallback [OF True \<open>selectedStudentForAssignment st = Some sel\<close> invalid, of sh]
          by (simp add: consistent_assign)
      qed
    qed
  qed
qed

lemma handleResetRoulette_consistent:
  assumes "consistent (students st) (seatMap st)"
  shows "consistent (students (handleResetRoulette confirmed sortByNumber st))
           (seatMap (handleResetRoulette confirmed sortByNumber st))"
proof (cases confirmed)
  case False
  with assms show ?thesis by (simp add: handleResetRoulette_def)
next
  case True
  have h: "heldSeats (map (\<lambda>s. s\<lparr>isAssigned := False, assignedSeatId := None\<rparr>) ss) = []" for ss
    by (induction ss) (simp_all add: heldSeats_def)
  from assms True show ?thesis
    by (auto simp: handleResetRoulette_def Let_def consistent_def assignmentInvariant_def
          seatsAgree_def h comp_def)
qed


subsection \<open>Batch assignment\<close>

lemma commitBulk_fields [simp]:
  "tempStudents (commitBulk student chosen t)
     = assignStudent chosen (student_id student) (tempStudents t)"
  "tempSeatMap (commitBulk student chosen t)
     = assignSeat chosen (student_id student) (tempSeatMap t)"
  "assignedSeatIdsInTemp (commitBulk student chosen t) = assignedSeatIdsInTemp t @ [chosen]"
  "remainingAvailableSeats (commitBulk student chosen t) = remainingAvailableSeats t"
  by (simp_all add: commitBulk_def)

lemma pushFixedError_fields [simp]:
  "tempStudents (pushFixedError e t) = tempStudents t"
  "tempSeatMap (pushFixedError e t) = tempSeatMap t"
  by (simp_all add: pushFixedError_def)

lemma fixedStep_consistent:
  assumes c: "consistent (tempStudents t) (tempSeatMap t)"
  shows "consistent (tempStudents (fixedStep t fa)) (tempSeatMap (fixedStep t fa))"
proof (cases "find (\<lambda>s. student_id s = fixed_studentId fa) (tempStudents t)")
  case None
  with c show ?thesis by (simp add: fixedStep_def)
next
  case (Some student)
  show ?thesis
  proof (cases "find (\<lambda>s. seatId s = fixed_seatId fa) (tempSeatMap t)")
    case None
    with Some c show ?thesis by (simp add: fixedStep_def)
  next
    case seat: (Some fixedSeat)
    then have mem: "fixedSeat \<in> set (tempSeatMap t)" by (auto dest: find_SomeD)
    show ?thesis
    proof (cases "isUsable fixedSeat
                  \<and> \<not> (truthy (assignedStudentId fixedSeat)
                          \<and> assignedStudentId fixedSeat \<noteq> Some (student_id student))
                  \<and> student_id student \<notin> set (assignedStudentIdsInTemp t)
                  \<and> seatId fixedSeat \<notin> set (assignedSeatIdsInTemp t)")
      case False
      with Some seat c show ?thesis by (auto simp: fixedStep_def)
    next
      case True
      then have "truthy (assignedStudentId fixedSeat)
                   \<longrightarrow> assignedStudentId fixedSeat = Some (student_id student)"
        by blast
      from fixed_free [OF c mem this]
      have "consistent (assignStudent (seatId fixedSeat) (student_id student) (tempStudents t))
              (assignSeat (seatId fixedSeat) (student_id student) (tempSeatMap t))"
        by (rule consistent_assign [OF c])
      with True Some seat show ?thesis by (auto simp: fixedStep_def)
    qed
  qed
qed

lemma foldl_fixedStep_consistent:
  "consistent (tempStudents t) (tempSeatMap t)
   \<Longrightarrow> consistent (tempStudents (foldl fixedStep t fas)) (tempSeatMap (foldl fixedStep t fas))"
  by (induction fas arbitrary: t) (simp_all add: fixedStep_consistent)

text \<open>
  In phase 2, a seat of the remaining list whose identifier has not been committed in
  this call is held by no student.
\<close>

lemma seatLoop_keeps:
  assumes c: "consistent (tempStudents t) (tempSeatMap t)"
    and r: "\<forall>p\<in>set (remainingAvailableSeats t). seatId p \<notin> set (assignedSeatIdsInTemp t)
              \<longrightarrow> (\<forall>s\<in>set (tempStudents t). assignedSeatId s \<noteq> Some (seatId p))"
  shows "consistent (tempStudents (snd (seatLoop rels student maxA idx att t)))
           (tempSeatMap (snd (seatLoop rels student maxA idx att t)))
       \<and> (\<forall>p\<in>set (remainingAvailableSeats (snd (seatLoop rels student maxA idx att t))).
             seatId p \<notin> set (assignedSeatIdsInTemp (snd (seatLoop rels student maxA idx att t)))
             \<longrightarrow> (\<forall>s\<in>set (tempStudents (snd (seatLoop rels student maxA idx att t))).
                    assignedSeatId s \<noteq> Some (seatId p)))"
proof -
  have "length (remainingAvailableSeats t) - idx = n \<Longrightarrow> ?thesis" for n
  proof (induction n arbitrary: idx att)
    case 0
    then have "\<not> idx < length (remainingAvailableSeats t)" by simp
    with c r show ?case by (subst (1 2 3 4 5) seatLoop.simps) simp
  next
    case (Suc n)
    then have lt: "idx < length (remainingAvailableSeats t)"
      and rest: "length (remainingAvailableSeats t) - (idx + 1) = n" by simp_all
    let ?p = "remainingAvailableSeats t ! idx"
    from lt have pmem: "?p \<in> set (remainingAvailableSeats t)" by simp
    show ?case
    proof (cases "att < maxA")
      case False
      with c r show ?thesis by (subst (1 2 3 4 5) seatLoop.simps) simp
    next
      case True
      show ?thesis
      proof (cases "seatId ?p \<noteq> [] \<and> seatId ?p \<notin> set (assignedSeatIdsInTemp t)
                    \<and> checkRelationConstraints (seatId ?p) (Some student) (tempSeatMap t)
                        (tempStudents t) rels")
        case False
        then have step: "seatLoop rels student maxA idx att t
                           = seatLoop rels student maxA (idx + 1) (att + 1) t"
          using lt True by (subst seatLoop.simps) (auto simp: Let_def)
        show ?thesis unfolding step by (rule Suc.IH [OF rest])
      next
        case commit: True
        let ?t' = "(commitBulk student (seatId ?p) t)
                    \<lparr>remainingAvailableSeats :=
                       take idx (remainingAvailableSeats t)
                       @ drop (Suc idx) (remainingAvailableSeats t)\<rparr>"
        have step: "seatLoop rels student maxA idx att t = (True, ?t')"
          using lt True commit by (subst seatLoop.simps) (simp add: Let_def)
        from r pmem commit
        have nobody: "\<forall>s\<in>set (tempStudents t). assignedSeatId s \<noteq> Some (seatId ?p)" by blast
        then have free: "\<forall>s\<in>set (tempStudents t). assignedSeatId s = Some (seatId ?p)
                           \<longrightarrow> student_id s = student_id student"
          by blast
        have c': "consistent (tempStudents ?t') (tempSeatMap ?t')"
          using consistent_assign [OF c free] by simp
        have r': "\<forall>p\<in>set (remainingAvailableSeats ?t').
                    seatId p \<notin> set (assignedSeatIdsInTemp ?t')
                    \<longrightarrow> (\<forall>s\<in>set (tempStudents ?t'). assignedSeatId s \<noteq> Some (seatId p))"
        proof (intro ballI impI)
          fix p s
          assume p: "p \<in> set (remainingAvailableSeats ?t')"
            and fresh: "seatId p \<notin> set (assignedSeatIdsInTemp ?t')"
            and s: "s \<in> set (tempStudents ?t')"
          from p have pm: "p \<in> set (remainingAvailableSeats t)"
            by (auto dest: in_set_takeD in_set_dropD)
          from fresh have ne: "seatId p \<noteq> seatId ?p"
            and old: "seatId p \<notin> set (assignedSeatIdsInTemp t)" by simp_all
          from r pm old
          have none: "\<forall>s\<in>set (tempStudents t). assignedSeatId s \<noteq> Some (seatId p)" by blast
          from s have "s \<in> set (assignStudent (seatId ?p) (student_id student) (tempStudents t))"
            by simp
          from in_assignStudent [OF this] none ne
          show "assignedSeatId s \<noteq> Some (seatId p)" by auto
        qed
        from c' r' show ?thesis unfolding step by simp
      qed
    qed
  qed
  then show ?thesis by simp
qed


lemma studentStep_keeps:
  assumes c: "consistent (tempStudents t) (tempSeatMap t)"
    and r: "\<forall>p\<in>set (remainingAvailableSeats t). seatId p \<notin> set (assignedSeatIdsInTemp t)
              \<longrightarrow> (\<forall>s\<in>set (tempStudents t). assignedSeatId s \<noteq> Some (seatId p))"
  shows "consistent (tempStudents (studentStep rels t student))
           (tempSeatMap (studentStep rels t student))
       \<and> (\<forall>p\<in>set (remainingAvailableSeats (studentStep rels t student)).
             seatId p \<notin> set (assignedSeatIdsInTemp (studentStep rels t student))
             \<longrightarrow> (\<forall>s\<in>set (tempStudents (studentStep rels t student)).
                    assignedSeatId s \<noteq> Some (seatId p)))"
proof (cases "student_id student \<in> set (assignedStudentIdsInTemp t)")
  case True
  with c r show ?thesis by (simp add: studentStep_def)
next
  case False
  obtain assigned t' where
    l: "seatLoop rels student (length (remainingAvailableSeats t) * 2) 0 0 t = (assigned, t')"
    by (cases "seatLoop rels student (length (remainingAvailableSeats t) * 2) 0 0 t")
  from seatLoop_keeps [OF c r, of rels student "length (remainingAvailableSeats t) * 2" 0 0] l
  have k: "consistent (tempStudents t') (tempSeatMap t')
       \<and> (\<forall>p\<in>set (remainingAvailableSeats t'). seatId p \<notin> set (assignedSeatIdsInTemp t')
             \<longrightarrow> (\<forall>s\<in>set (tempStudents t'). assignedSeatId s \<noteq> Some (seatId p)))"
    by simp
  show ?thesis
  proof (cases assigned)
    case True
    with False l k show ?thesis by (simp add: studentStep_def Let_def)
  next
    case False
    with \<open>student_id student \<notin> set (assignedStudentIdsInTemp t)\<close> l k show ?thesis
      by (simp add: studentStep_def Let_def)
  qed
qed

lemma foldl_studentStep_keeps:
  assumes "consistent (tempStudents t) (tempSeatMap t)"
    and "\<forall>p\<in>set (remainingAvailableSeats t). seatId p \<notin> set (assignedSeatIdsInTemp t)
              \<longrightarrow> (\<forall>s\<in>set (tempStudents t). assignedSeatId s \<noteq> Some (seatId p))"
  shows "consistent (tempStudents (foldl (studentStep rels) t xs))
           (tempSeatMap (foldl (studentStep rels) t xs))"
  using assms
proof (induction xs arbitrary: t)
  case Nil
  then show ?case by simp
next
  case (Cons x xs)
  from studentStep_keeps [OF Cons.prems, of rels x] Cons.IH [of "studentStep rels t x"]
  show ?case by simp
qed

lemma handleBulkAssign_consistent:
  assumes c: "consistent (students st) (seatMap st)"
    and sh: "\<forall>xs. set (shuffleSeats xs) \<subseteq> set xs"
  shows "consistent (students (handleBulkAssign confirmed shuffleStudents shuffleSeats st))
           (seatMap (handleBulkAssign confirmed shuffleStudents shuffleSeats st))"
proof (cases "length (unassignedStudents st) = 0 \<or> length (availableSeats st) = 0
              \<or> length (unassignedStudents st) > length (availableSeats st) \<or> \<not> confirmed")
  case True
  with c show ?thesis by (auto simp: handleBulkAssign_def)
next
  case False
  let ?t0 = "\<lparr>tempSeatMap = seatMap st, tempStudents = students st,
               tempWinningHistory = winningHistory (rouletteState st),
               assignedStudentIdsInTemp = [], assignedSeatIdsInTemp = [],
               fixedAssignmentErrors = [], remainingAvailableSeats = [],
               bulkMessage = None\<rparr>"
  let ?t1 = "foldl fixedStep ?t0 (fixedSeatAssignments st)"
  let ?t1' = "if length (fixedAssignmentErrors ?t1) > 0
              then ?t1\<lparr>bulkMessage := Some (FixedAssignmentProblems # fixedAssignmentErrors ?t1)\<rparr>
              else ?t1"
  let ?t2 = "?t1'\<lparr>remainingAvailableSeats := shuffleSeats (filter isAvailable (tempSeatMap ?t1'))\<rparr>"
  let ?us = "shuffleStudents (filter (\<lambda>s. \<not> isAssigned s) (tempStudents ?t1'))"
  have c1: "consistent (tempStudents ?t1) (tempSeatMap ?t1)"
    using c by (intro foldl_fixedStep_consistent) simp
  then have c2: "consistent (tempStudents ?t2) (tempSeatMap ?t2)" by simp
  have r2: "\<forall>p\<in>set (remainingAvailableSeats ?t2). seatId p \<notin> set (assignedSeatIdsInTemp ?t2)
              \<longrightarrow> (\<forall>s\<in>set (tempStudents ?t2). assignedSeatId s \<noteq> Some (seatId p))"
  proof (intro ballI impI)
    fix p s
    assume p: "p \<in> set (remainingAvailableSeats ?t2)" and s: "s \<in> set (tempStudents ?t2)"
    have rem: "remainingAvailableSeats ?t2 = shuffleSeats (filter isAvailable (tempSeatMap ?t1))"
      and tm: "tempSeatMap ?t2 = tempSeatMap ?t1"
      by simp_all
    from sh have "set (shuffleSeats (filter isAvailable (tempSeatMap ?t1)))
                    \<subseteq> set (filter isAvailable (tempSeatMap ?t1))"
      by blast
    with p have "p \<in> set (filter isAvailable (tempSeatMap ?t1))"
      unfolding rem by blast
    then have "p \<in> set (tempSeatMap ?t2)" "isAvailable p"
      unfolding tm by simp_all
    from available_free [OF c2 this] s show "assignedSeatId s \<noteq> Some (seatId p)" by blast
  qed
  have "consistent (tempStudents (foldl (studentStep (relationConfig st)) ?t2 ?us))
          (tempSeatMap (foldl (studentStep (relationConfig st)) ?t2 ?us))"
    by (rule foldl_studentStep_keeps [OF c2 r2])
  with False show ?thesis by (simp add: handleBulkAssign_def Let_def)
qed

subsection \<open>Reachable states\<close>

lemma unassigned_consistent:
  assumes "distinct (map student_id ss)"
    and "\<forall>s\<in>set ss. student_id s \<noteq> [] \<and> \<not> isAssigned s \<and> assignedSeatId s = None"
  shows "consistent ss sm"
proof -
  have "heldSeats ss = []"
    using assms(2) by (induction ss) (simp_all add: heldSeats_def)
  with assms show ?thesis
    by (simp add: consistent_def assignmentInvariant_def seatsAgree_def)
qed

lemma reachable_consistent:
  "reachable st \<Longrightarrow> consistent (students st) (seatMap st)"
proof (induction rule: reachable.induct)
  case (initial st)
  then show ?case by (rule unassigned_consistent)
next
  case (control st st')
  then show ?case by simp
next
  case (stop st shuffled)
  from stop(2) have "set shuffled = set (availableSeats st)" by (metis set_mset_mset)
  with stop(3) show ?case by (intro stopRoulette_consistent) simp_all
next
  case (bulk st shuffleSeats confirmed shuffleStudents)
  from bulk(2) have "\<forall>xs. set (shuffleSeats xs) \<subseteq> set xs"
    by (metis set_mset_mset subset_refl)
  with bulk(3) show ?case by (intro handleBulkAssign_consistent)
next
  case (reset st confirmed sortByNumber)
  then show ?case by (intro handleResetRoulette_consistent)
qed

text \<open>
  C4. In every reachable state, and after a stopped draw, a batch assignment or a reset
  from it, each student's \<^verbatim>\<open>isAssigned\<close> is true exactly when its
  \<^verbatim>\<open>assignedSeatId\<close> is not null and no seat identifier is held by two students;
  along with that, every seat record with the identifier of a held seat names the
  student that holds it. The shuffles are arrangements of their inputs.
\<close>

theorem engine_operations_keep_invariant:
  assumes "reachable st"
    and "mset shuffled = mset (availableSeats st)"
    and "\<forall>xs. mset (shuffleSeats xs) = mset xs"
  shows "assignmentInvariant (students st)
     \<and> assignmentInvariant (students (stopRoulette shuffled st))
     \<and> seatsAgree (students (stopRoulette shuffled st)) (seatMap (stopRoulette shuffled st))
     \<and> assignmentInvariant
         (students (handleBulkAssign confirmed shuffleStudents shuffleSeats st))
     \<and> seatsAgree (students (handleBulkAssign confirmed shuffleStudents shuffleSeats st))
         (seatMap (handleBulkAssign confirmed shuffleStudents shuffleSeats st))
     \<and> assignmentInvariant (students (handleResetRoulette confirmed' sortByNumber st))
     \<and> seatsAgree (students (handleResetRoulette confirmed' sortByNumber st))
         (seatMap (handleResetRoulette confirmed' sortByNumber st))"
proof -
  have "reachable (stopRoulette shuffled st)"
    using assms(1,2) by (rule reachable.stop)
  moreover have "reachable (handleBulkAssign confirmed shuffleStudents shuffleSeats st)"
    using assms(1,3) by (rule reachable.bulk)
  moreover have "reachable (handleResetRoulette confirmed' sortByNumber st)"
    using assms(1) by (rule reachable.reset)
  ultimately show ?thesis
    using assms(1) by (auto dest!: reachable_consistent simp: consistent_def)
qed

text \<open>
  From \<open>sessionStart\<close> the draw gives R1C1 to S1; from there the batch seats S2 on its
  fixed seat R1C2 and S3 on R2C2, and a reset clears the three.
\<close>

theorem engine_operations_keep_invariant_witness:
  "reachable (stopRoulette (availableSeats sessionStart) sessionStart)
   \<and> heldSeats (students (stopRoulette (availableSeats sessionStart) sessionStart)) = [''R1C1'']
   \<and> assignmentInvariant (students (stopRoulette (availableSeats sessionStart) sessionStart))
   \<and> heldSeats (students (handleBulkAssign True (\<lambda>xs. xs) (\<lambda>xs. xs)
         (stopRoulette (availableSeats sessionStart) sessionStart)))
       = [''R1C1'', ''R1C2'', ''R2C2'']
   \<and> assignmentInvariant (students (handleBulkAssign True (\<lambda>xs. xs) (\<lambda>xs. xs)
         (stopRoulette (availableSeats sessionStart) sessionStart)))
   \<and> assignmentInvariant (students (handleResetRoulette True (\<lambda>xs. xs)
         (stopRoulette (availableSeats sessionStart) sessionStart)))"
proof -
  let ?st1 = "stopRoulette (availableSeats sessionStart) sessionStart"
  have d: "distinct (map student_id (students sessionStart))" by code_simp
  have u: "\<forall>s\<in>set (students sessionStart).
             student_id s \<noteq> [] \<and> \<not> isAssigned s \<and> assignedSeatId s = None"
    by (simp add: sessionStart_def runningState_def mkStudent_def)
  have r0: "reachable sessionStart" using d u by (rule reachable.initial)
  have r1: "reachable ?st1" using r0 by (rule reachable.stop) simp
  have sh: "\<forall>xs :: SeatMapData list. mset ((\<lambda>xs. xs) xs) = mset xs" by simp
  have h1: "heldSeats (students ?st1) = [''R1C1'']" by code_simp
  have h2: "heldSeats (students (handleBulkAssign True (\<lambda>xs. xs) (\<lambda>xs. xs) ?st1))
              = [''R1C1'', ''R1C2'', ''R2C2'']" by code_simp
  from engine_operations_keep_invariant [OF r1 refl sh, of True "\<lambda>xs. xs" True "\<lambda>xs. xs"]
  have "assignmentInvariant (students ?st1)"
    "assignmentInvariant (students (handleBulkAssign True (\<lambda>xs. xs) (\<lambda>xs. xs) ?st1))"
    "assignmentInvariant (students (handleResetRoulette True (\<lambda>xs. xs) ?st1))"
    by blast+
  with r1 h1 h2 show ?thesis by blast
qed

end
